theory Spec2Isabelle
  imports Complex_Main "HOL-Library.Sublist" "HOL-Library.Multiset"
begin

section \<open>Data model of the content script\<close>

text \<open>
  The model follows \<^verbatim>\<open>src/content.js\<close>. A JavaScript number is modelled by the real
  it denotes; its arithmetic is in the next section. The only two values the code ever
  stores in \<^verbatim>\<open>order.status\<close> are the strings \<^verbatim>\<open>'pending'\<close> and \<^verbatim>\<open>'executed'\<close>; fields
  an order object does not have yet are \<open>None\<close>.
\<close>

datatype order_status = Pending | Executed

record order =
  order_id :: string
  targetPrice :: real
  amount :: real
  status :: order_status
  executedPrice :: "real option"
  filledAt :: "nat option"
  vaultOrderId :: "string option"
  vaultOrderUrl :: "string option"

text \<open>What \<^verbatim>\<open>getLatestVaultOrder\<close> scrapes from the page, when it finds something.\<close>

record vault_order =
  orderId :: string
  detailsUrl :: "string option"

text \<open>The global \<^verbatim>\<open>settings\<close> object (\<^verbatim>\<open>DEFAULT_SETTINGS\<close> gives its shape).\<close>

record settings_data =
  maxBudget :: real
  refreshInterval :: nat
  orders :: "order list"

text \<open>The result object \<^verbatim>\<open>{ orders, totalAmount }\<close> of \<^verbatim>\<open>validateBatchExecution\<close>.\<close>

record batch =
  batch_orders :: "order list"
  totalAmount :: real

section \<open>JavaScript number arithmetic\<close>

text \<open>
  JavaScript numbers are IEEE 754 doubles: 53 bits of mantissa, exponents from -1022 to
  1023, and below that the subnormal numbers with the spacing of the exponent -1022.
  \<^verbatim>\<open>+\<close> and \<^verbatim>\<open>-\<close> give the double nearest to the exact result, a tie going to the
  even mantissa. Comparisons are exact. \<^verbatim>\<open>NaN\<close> and the infinities are not modelled: a
  result beyond the largest double (about 1.8e308) is a real here and \<^verbatim>\<open>Infinity\<close> in
  the code. Every number the script holds is a double, \<^verbatim>\<open>parseFloat\<close> giving the double
  nearest to the text it reads; a price written 2.9 in a run below stands for that
  double, and prices are only compared.
\<close>

definition roundHalfEven :: "real \<Rightarrow> int" where
  "roundHalfEven m =
     (let f = \<lfloor>m\<rfloor>; d = m - of_int f
      in if d < 1 / 2 then f else if 1 / 2 < d then f + 1 else if even f then f else f + 1)"

text \<open>The greatest exponent from 1023 down to -1021 whose power of two is at most \<open>a\<close>, else -1022.\<close>

primrec findExponent :: "nat \<Rightarrow> real \<Rightarrow> int" where
  "findExponent 0 a = - 1022"
| "findExponent (Suc n) a =
     (if 2 powi (int n - 1021) \<le> a then int n - 1021 else findExponent n a)"

definition exponent :: "real \<Rightarrow> int" where
  "exponent z = findExponent 2045 \<bar>z\<bar>"

definition roundDouble :: "real \<Rightarrow> real" where
  "roundDouble z = (let q = 2 powi (exponent z - 52) in q * of_int (roundHalfEven (z / q)))"

definition jsAdd :: "real \<Rightarrow> real \<Rightarrow> real" where
  "jsAdd x y = roundDouble (x + y)"

definition jsSub :: "real \<Rightarrow> real \<Rightarrow> real" where
  "jsSub x y = roundDouble (x - y)"

section \<open>Order queries and the matching engine\<close>

definition getPendingOrders :: "settings_data \<Rightarrow> order list" where
  "getPendingOrders s = filter (\<lambda>ord. status ord = Pending) (orders s)"

definition getExecutedOrders :: "settings_data \<Rightarrow> order list" where
  "getExecutedOrders s = filter (\<lambda>ord. status ord = Executed) (orders s)"

text \<open>\<^verbatim>\<open>reduce((sum, order) => sum + order.amount, 0)\<close>, used in three places.\<close>

definition sumAmounts :: "order list \<Rightarrow> real" where
  "sumAmounts os = foldl (\<lambda>sum order. jsAdd sum (amount order)) 0 os"

definition calculateTotalSpent :: "settings_data \<Rightarrow> real" where
  "calculateTotalSpent s = sumAmounts (getExecutedOrders s)"

text \<open>
  \<^verbatim>\<open>Array.prototype.sort\<close> with the comparator \<^verbatim>\<open>a.targetPrice - b.targetPrice\<close> is a
  stable sort on the key \<^verbatim>\<open>targetPrice\<close> (ECMAScript 2019 and later); \<open>sort_key\<close> is
  the stable insertion sort of the list library.
\<close>

definition findExecutableOrders :: "settings_data \<Rightarrow> real \<Rightarrow> order list" where
  "findExecutableOrders s currentPrice =
     sort_key targetPrice
       (filter (\<lambda>ord. status ord = Pending \<and> currentPrice \<le> targetPrice ord) (orders s))"

text \<open>The \<^verbatim>\<open>for (const order of orders)\<close> loop of \<^verbatim>\<open>validateBatchExecution\<close>.\<close>

fun greedyLoop :: "real \<Rightarrow> order list \<Rightarrow> order list \<Rightarrow> real \<Rightarrow> order list \<times> real" where
  "greedyLoop remainingBudget [] selectedOrders runningTotal = (selectedOrders, runningTotal)"
| "greedyLoop remainingBudget (order # rest) selectedOrders runningTotal =
     (if jsAdd runningTotal (amount order) \<le> remainingBudget
      then greedyLoop remainingBudget rest (selectedOrders @ [order])
             (jsAdd runningTotal (amount order))
      else greedyLoop remainingBudget rest selectedOrders runningTotal)"

definition validateBatchExecution :: "order list \<Rightarrow> real \<Rightarrow> real \<Rightarrow> batch" where
  "validateBatchExecution os maxBudget' totalSpent' =
     (let remainingBudget = jsSub maxBudget' totalSpent';
          batchTotal = sumAmounts os
      in if batchTotal \<le> remainingBudget
         then \<lparr>batch_orders = os, totalAmount = batchTotal\<rparr>
         else (case greedyLoop remainingBudget os [] 0 of
                 (selectedOrders, runningTotal) \<Rightarrow>
                   \<lparr>batch_orders = selectedOrders, totalAmount = runningTotal\<rparr>))"

text \<open>An order object as \<^verbatim>\<open>addOrder\<close> creates it.\<close>

definition newOrder :: "string \<Rightarrow> real \<Rightarrow> real \<Rightarrow> order" where
  "newOrder i t a =
     \<lparr>order_id = i, targetPrice = t, amount = a, status = Pending,
      executedPrice = None, filledAt = None, vaultOrderId = None, vaultOrderUrl = None\<rparr>"

section \<open>The page: script state, storage and calls in flight\<close>

text \<open>The global \<^verbatim>\<open>STATE\<close> object.\<close>

record running_state =
  buyProcessStarted :: bool
  currentStep :: nat
  totalSpent :: real
  ordersExecuted :: nat
  isRunning :: bool
  currentOrderIndex :: "string list option"

text \<open>
  The object \<^verbatim>\<open>persistState\<close> writes under the key \<^verbatim>\<open>runningState\<close> (its
  \<^verbatim>\<open>timestamp\<close> is never read back and is left out).
\<close>

record saved_state =
  saved_isRunning :: bool
  saved_buyProcessStarted :: bool
  saved_currentStep :: nat
  saved_totalSpent :: real
  saved_ordersExecuted :: nat

text \<open>
  A call of \<^verbatim>\<open>executeBatchBuyProcess\<close> that has passed its two entry checks and is
  suspended at one of its \<^verbatim>\<open>await\<close>s: in one of the three numbered steps, or in the
  loop that marks the orders (with the orders still to be marked).
\<close>

datatype phase = Stage1 | Stage2 | Stage3 | Marking "order list"

record execution =
  exec_orders :: "order list"
  executionPrice :: real
  combinedAmount :: real
  exec_phase :: phase

text \<open>
  Where \<^verbatim>\<open>init\<close> is suspended: at \<^verbatim>\<open>await loadSettings()\<close>, at
  \<^verbatim>\<open>await getPersistedState()\<close>, or at \<^verbatim>\<open>await createToolbar()\<close>, where it holds its
  two constants \<^verbatim>\<open>wasRunning\<close> and \<^verbatim>\<open>wasBuying\<close>.
\<close>

datatype init_stage = InitDone | AwaitSettings | AwaitPersistedState | AwaitToolbar bool bool

text \<open>
  Everything the script can read or write: its two globals, the two keys of
  \<^verbatim>\<open>storage.local\<close> (they survive a reload), the background alarm, the
  \<^verbatim>\<open>setTimeout\<close> that \<^verbatim>\<open>init\<close> arms, and the asynchronous calls in flight: the
  calls of \<^verbatim>\<open>checkPriceAndBuy\<close> suspended at \<^verbatim>\<open>await persistCurrentPrice\<close> (each
  holds the price it read), the executions, and \<^verbatim>\<open>init\<close> itself.
\<close>

record page =
  STATE :: running_state
  settings :: settings_data
  stored_settings :: settings_data
  stored_runningState :: "saved_state option"
  alarm :: bool
  timer :: bool
  ticks :: "real list"
  executions :: "execution list"
  initStage :: init_stage

definition DEFAULT_SETTINGS :: settings_data where
  "DEFAULT_SETTINGS = \<lparr>maxBudget = 0, refreshInterval = 5, orders = []\<rparr>"

definition persistState :: "page \<Rightarrow> page" where
  "persistState p =
     p\<lparr>stored_runningState :=
         Some \<lparr>saved_isRunning = isRunning (STATE p),
               saved_buyProcessStarted = buyProcessStarted (STATE p),
               saved_currentStep = currentStep (STATE p),
               saved_totalSpent = totalSpent (STATE p),
               saved_ordersExecuted = ordersExecuted (STATE p)\<rparr>\<rparr>"

definition saveSettings :: "page \<Rightarrow> page" where
  "saveSettings p = p\<lparr>stored_settings := settings p\<rparr>"

definition scheduleRefresh :: "page \<Rightarrow> page" where
  "scheduleRefresh p = (if \<not> isRunning (STATE p) then p else p\<lparr>alarm := True\<rparr>)"

definition cancelRefresh :: "page \<Rightarrow> page" where
  "cancelRefresh p = p\<lparr>alarm := False\<rparr>"

definition stopMonitoring :: "page \<Rightarrow> page" where
  "stopMonitoring p = cancelRefresh (persistState (p\<lparr>STATE := (STATE p)\<lparr>isRunning := False\<rparr>\<rparr>))"

section \<open>Order store\<close>

text \<open>
  \<^verbatim>\<open>addOrder\<close>: the identifier \<^verbatim>\<open>generateOrderId()\<close> returns is a parameter. The
  function checks nothing; the checks are in the click handler below.
\<close>

definition addOrder :: "string \<Rightarrow> real \<Rightarrow> real \<Rightarrow> page \<Rightarrow> page \<times> order" where
  "addOrder newId targetPrice' amount' p =
     (let order = newOrder newId targetPrice' amount'
      in (saveSettings (p\<lparr>settings := (settings p)\<lparr>orders := orders (settings p) @ [order]\<rparr>\<rparr>),
          order))"

text \<open>\<^verbatim>\<open>splice(index, 1)\<close> at the index \<^verbatim>\<open>findIndex(o => o.id === orderId)\<close> found.\<close>

fun spliceFirst :: "string \<Rightarrow> order list \<Rightarrow> order list" where
  "spliceFirst orderId' [] = []"
| "spliceFirst orderId' (x # xs) =
     (if order_id x = orderId' then xs else x # spliceFirst orderId' xs)"

definition removeOrder :: "string \<Rightarrow> page \<Rightarrow> page" where
  "removeOrder orderId' p =
     (case find (\<lambda>ord. order_id ord = orderId') (orders (settings p)) of
        None \<Rightarrow> p
      | Some order \<Rightarrow>
          saveSettings
            (p\<lparr>settings := (settings p)\<lparr>orders := spliceFirst orderId' (orders (settings p))\<rparr>\<rparr>))"

text \<open>
  The assignments \<^verbatim>\<open>markOrderExecuted\<close> makes to the order object it found; the clock
  reading \<^verbatim>\<open>Date.now()\<close> and the result of \<^verbatim>\<open>getLatestVaultOrder()\<close> are parameters.
\<close>

definition fill :: "real \<Rightarrow> nat \<Rightarrow> vault_order option \<Rightarrow> order \<Rightarrow> order" where
  "fill executedPrice' now vaultOrder order =
     (let order1 = order\<lparr>status := Executed, executedPrice := Some executedPrice',
                         filledAt := Some now\<rparr>
      in case vaultOrder of
           None \<Rightarrow> order1
         | Some v \<Rightarrow> order1\<lparr>vaultOrderId := Some (orderId v), vaultOrderUrl := detailsUrl v\<rparr>)"

text \<open>The object \<^verbatim>\<open>find(o => o.id === orderId)\<close> returns is updated in place.\<close>

fun updateFirst :: "string \<Rightarrow> (order \<Rightarrow> order) \<Rightarrow> order list \<Rightarrow> order list" where
  "updateFirst orderId' f [] = []"
| "updateFirst orderId' f (x # xs) =
     (if order_id x = orderId' then f x # xs else x # updateFirst orderId' f xs)"

definition markOrderExecuted :: "string \<Rightarrow> real \<Rightarrow> nat \<Rightarrow> vault_order option \<Rightarrow> page \<Rightarrow> page" where
  "markOrderExecuted orderId' executedPrice' now vaultOrder p =
     (case find (\<lambda>ord. order_id ord = orderId') (orders (settings p)) of
        None \<Rightarrow> p
      | Some order \<Rightarrow>
          saveSettings
            (p\<lparr>settings := (settings p)
                 \<lparr>orders := updateFirst orderId' (fill executedPrice' now vaultOrder)
                              (orders (settings p))\<rparr>\<rparr>))"

section \<open>Execution controller\<close>

text \<open>
  \<^verbatim>\<open>executeBatchBuyProcess\<close> up to its first \<^verbatim>\<open>await\<close>: the two entry checks, then the
  flag, the step and the batch are set and persisted. No \<^verbatim>\<open>await\<close> lies between the
  check of \<^verbatim>\<open>STATE.buyProcessStarted\<close> and its assignment. The rest of the
  function is in the event loop below: its steps, its marking loop and its \<^verbatim>\<open>finally\<close>
  block run one at a time, with whatever else the page does in between. (The
  single-order \<^verbatim>\<open>executeBuyProcess\<close> has no caller and is not modelled.)
\<close>

definition enterBatch :: "order list \<Rightarrow> real \<Rightarrow> page \<Rightarrow> page" where
  "enterBatch os executionPrice' p =
     (if \<not> isRunning (STATE p) then p
      else if buyProcessStarted (STATE p) then p
      else persistState
             (p\<lparr>STATE := (STATE p)\<lparr>buyProcessStarted := True, currentStep := 1,
                                   currentOrderIndex := Some (map order_id os)\<rparr>,
                executions := executions p @
                  [\<lparr>exec_orders = os, executionPrice = executionPrice',
                    combinedAmount = sumAmounts os, exec_phase = Stage1\<rparr>]\<rparr>))"

text \<open>The \<^verbatim>\<open>finally\<close> block.\<close>

definition finallyBlock :: "page \<Rightarrow> page" where
  "finallyBlock p =
     scheduleRefresh
       (persistState
          (p\<lparr>STATE := (STATE p)\<lparr>buyProcessStarted := False, currentStep := 0,
                                currentOrderIndex := None\<rparr>\<rparr>))"

text \<open>The step counter is advanced and persisted after a step succeeded.\<close>

definition advanceStep :: "nat \<Rightarrow> page \<Rightarrow> page" where
  "advanceStep n p = persistState (p\<lparr>STATE := (STATE p)\<lparr>currentStep := n\<rparr>\<rparr>)"

text \<open>The counters are updated and persisted after every order was marked.\<close>

definition countBatch :: "nat \<Rightarrow> real \<Rightarrow> page \<Rightarrow> page" where
  "countBatch n combinedAmount' p =
     persistState
       (p\<lparr>STATE := (STATE p)\<lparr>ordersExecuted := ordersExecuted (STATE p) + n,
                             totalSpent := jsAdd (totalSpent (STATE p)) combinedAmount'\<rparr>\<rparr>)"

section \<open>Monitoring supervisor\<close>

text \<open>
  \<^verbatim>\<open>checkPriceAndBuy\<close> up to \<^verbatim>\<open>await persistCurrentPrice(currentPrice)\<close>; the argument
  is what \<^verbatim>\<open>getCurrentPrice()\<close> returns (\<open>None\<close> for \<^verbatim>\<open>null\<close>).
\<close>

definition checkPriceAndBuy :: "real option \<Rightarrow> page \<Rightarrow> page" where
  "checkPriceAndBuy price p =
     (if \<not> isRunning (STATE p) then p
      else if buyProcessStarted (STATE p) then p
      else if maxBudget (settings p) \<le> 0 then stopMonitoring p
      else case price of
             None \<Rightarrow> scheduleRefresh p
           | Some currentPrice \<Rightarrow> p\<lparr>ticks := ticks p @ [currentPrice]\<rparr>)"

text \<open>
  The rest of \<^verbatim>\<open>checkPriceAndBuy\<close>, for a call that read \<open>currentPrice\<close>; it ends in
  the synchronous part of \<^verbatim>\<open>executeBatchBuyProcess\<close> when a batch was selected.
\<close>

definition checkPriceAndBuy_rest :: "real \<Rightarrow> page \<Rightarrow> page" where
  "checkPriceAndBuy_rest currentPrice p =
     (if getPendingOrders (settings p) = [] then scheduleRefresh p
      else
        let executableOrders = findExecutableOrders (settings p) currentPrice
        in if executableOrders \<noteq> []
           then let b = validateBatchExecution executableOrders (maxBudget (settings p))
                          (totalSpent (STATE p))
                in if batch_orders b \<noteq> [] then enterBatch (batch_orders b) currentPrice p
                   else stopMonitoring p
           else scheduleRefresh p)"

definition startMonitoring :: "real option \<Rightarrow> page \<Rightarrow> page" where
  "startMonitoring price p =
     (if isRunning (STATE p) then p
      else if maxBudget (settings p) \<le> 0 then p
      else if getPendingOrders (settings p) = [] then p
      else checkPriceAndBuy price (persistState (p\<lparr>STATE := (STATE p)\<lparr>isRunning := True\<rparr>\<rparr>)))"

text \<open>
  A reload gives a new page: the script's globals have their initial values, no call of
  the old page is left, only the storage and the alarm are. The message listener is
  registered and \<^verbatim>\<open>init\<close> runs up to \<^verbatim>\<open>await loadSettings()\<close>.
\<close>

definition reload :: "page \<Rightarrow> page" where
  "reload old =
     \<lparr>STATE = \<lparr>buyProcessStarted = False, currentStep = 0, totalSpent = 0,
                ordersExecuted = 0, isRunning = False, currentOrderIndex = None\<rparr>,
      settings = DEFAULT_SETTINGS, stored_settings = stored_settings old,
      stored_runningState = stored_runningState old, alarm = alarm old, timer = False,
      ticks = [], executions = [], initStage = AwaitSettings\<rparr>"

text \<open>
  \<^verbatim>\<open>init\<close> goes on from the \<^verbatim>\<open>await\<close> it is suspended at to the next one, or to its
  end. The value a storage read gives is taken when the read returns. A missing
  persisted state reads as \<^verbatim>\<open>{}\<close>, where both flags are false. The buttons are wired
  in \<^verbatim>\<open>createToolbar\<close> before its only \<^verbatim>\<open>await\<close>. The last piece is the part of
  \<^verbatim>\<open>init\<close> after \<^verbatim>\<open>await createToolbar()\<close>; the \<^verbatim>\<open>await persistState()\<close> in its two
  branches is taken with it.
\<close>

definition init_resume :: "page \<Rightarrow> page" where
  "init_resume p =
     (case initStage p of
        InitDone \<Rightarrow> p
      | AwaitSettings \<Rightarrow> p\<lparr>settings := stored_settings p, initStage := AwaitPersistedState\<rparr>
      | AwaitPersistedState \<Rightarrow>
          (let wasRunning = (case stored_runningState p of None \<Rightarrow> False
                             | Some persistedState \<Rightarrow> saved_isRunning persistedState);
               wasBuying = (case stored_runningState p of None \<Rightarrow> False
                            | Some persistedState \<Rightarrow> saved_buyProcessStarted persistedState)
           in p\<lparr>STATE := (STATE p)
                   \<lparr>totalSpent := calculateTotalSpent (settings p),
                    ordersExecuted := length (getExecutedOrders (settings p)),
                    isRunning := (if wasRunning then True else isRunning (STATE p))\<rparr>,
                 initStage := AwaitToolbar wasRunning wasBuying\<rparr>)
      | AwaitToolbar wasRunning wasBuying \<Rightarrow>
          (let p1 = p\<lparr>initStage := InitDone\<rparr>
           in if wasRunning \<and> \<not> wasBuying then (persistState p1)\<lparr>timer := True\<rparr>
              else if wasBuying
              then (persistState
                      (p1\<lparr>STATE := (STATE p1)\<lparr>buyProcessStarted := False,
                                              currentStep := 0\<rparr>\<rparr>))
                     \<lparr>timer := True\<rparr>
              else p1))"

text \<open>
  The handler of the \<^verbatim>\<open>xch-refresh\<close> alarm in \<^verbatim>\<open>background.js\<close>. The alarm fires
  once. \<open>vaultTab\<close> says whether a vault tab with a usable id was found; \<open>vendor\<close> is
  what \<^verbatim>\<open>runtime.getBrowserInfo()\<close> reports, \<open>None\<close> where the browser has no such
  function and the call throws. Reloading the tab, and closing and reopening it, both
  give a new page.
\<close>

definition onAlarm :: "bool \<Rightarrow> string option \<Rightarrow> page \<Rightarrow> page" where
  "onAlarm vaultTab vendor p =
     (if \<not> alarm p then p
      else
        let p1 = p\<lparr>alarm := False\<rparr>
        in if (case stored_runningState p of None \<Rightarrow> False
               | Some runningState \<Rightarrow> saved_buyProcessStarted runningState)
           then p1
           else if \<not> vaultTab then p1
           else case vendor of
                  None \<Rightarrow> p1
                | Some v \<Rightarrow> if v = ''Mozilla'' then reload p1 else reload p1)"

section \<open>Click handlers\<close>

text \<open>
  The Add Order handler returns early, after a warning, in five cases; it throws
  nothing. The two inputs are \<open>None\<close> when the field is empty.
\<close>

datatype rejection =
  BudgetNotConfigured | MissingInput | NotPositive | BelowMinimum | AboveCurrentPrice

definition addOrderClick ::
  "real option \<Rightarrow> real option \<Rightarrow> real option \<Rightarrow> string \<Rightarrow> real option \<Rightarrow> page
   \<Rightarrow> rejection + page \<times> order" where
  "addOrderClick targetInput amountInput price newId priceAtRestart p =
     (if maxBudget (settings p) \<le> 0 then Inl BudgetNotConfigured
      else case (targetInput, amountInput) of
        (Some targetPriceNum, Some amountNum) \<Rightarrow>
          if targetPriceNum \<le> 0 \<or> amountNum \<le> 0 then Inl NotPositive
          else if amountNum < 25 then Inl BelowMinimum
          else if (case price of None \<Rightarrow> False
                   | Some currentPrice \<Rightarrow> targetPriceNum > currentPrice)
          then Inl AboveCurrentPrice
          else (case addOrder newId targetPriceNum amountNum p of
                  (p1, order) \<Rightarrow>
                    Inr (if isRunning (STATE p1)
                         then startMonitoring priceAtRestart (stopMonitoring p1)
                         else p1,
                         order))
      | _ \<Rightarrow> Inl MissingInput)"

definition saveClick :: "real \<Rightarrow> nat \<Rightarrow> page \<Rightarrow> page" where
  "saveClick budgetValue interval p =
     (let p1 = saveSettings
                 (p\<lparr>settings := (settings p)
                      \<lparr>maxBudget := (if budgetValue > 0 then budgetValue else 0),
                       refreshInterval := (if interval = 0 then 5 else interval)\<rparr>\<rparr>)
      in if isRunning (STATE p1) then scheduleRefresh p1 else p1)"

section \<open>The event loop\<close>

text \<open>
  JavaScript runs one handler at a time and switches only at an \<^verbatim>\<open>await\<close>. An event is
  one such uninterrupted piece: a click, a timer, a reload, or the resumption of a
  suspended call (named by its position in the list of calls in flight). The model
  switches at the \<^verbatim>\<open>await\<close>s of \<^verbatim>\<open>init\<close>, at that of the price check and at those of an
  execution (each step, each order marked); the storage writes awaited inside the other
  handlers are taken with their handler. \<open>StartClick\<close> stands for the Start button and
  for the \<^verbatim>\<open>START\<close> message, \<open>StopClick\<close> for the Stop button and the \<^verbatim>\<open>STOP\<close> message.
\<close>

datatype event =
    StartClick "real option"
  | StopClick
  | TimerFires "real option"
  | AlarmFires bool "string option"
  | Reload
  | InitResumes
  | TickResumes nat
  | StepEnds nat bool
  | MarkNext nat nat "vault_order option"
  | AddOrderClick "real option" "real option" "real option" string "real option"
  | RemoveClick string
  | SaveClick real nat

definition dropAt :: "nat \<Rightarrow> 'a list \<Rightarrow> 'a list" where
  "dropAt k xs = take k xs @ drop (Suc k) xs"

definition setPhase :: "nat \<Rightarrow> phase \<Rightarrow> page \<Rightarrow> page" where
  "setPhase k ph p = p\<lparr>executions := (executions p)[k := (executions p ! k)\<lparr>exec_phase := ph\<rparr>]\<rparr>"

definition endExecution :: "nat \<Rightarrow> page \<Rightarrow> page" where
  "endExecution k p = finallyBlock (p\<lparr>executions := dropAt k (executions p)\<rparr>)"

text \<open>A step of the execution at position \<open>k\<close> returns (\<open>True\<close>) or throws.\<close>

definition stepEnds :: "nat \<Rightarrow> bool \<Rightarrow> page \<Rightarrow> page" where
  "stepEnds k ok p =
     (if k < length (executions p)
      then case exec_phase (executions p ! k) of
             Stage1 \<Rightarrow> if ok then setPhase k Stage2 (advanceStep 2 p) else endExecution k p
           | Stage2 \<Rightarrow> if ok then setPhase k Stage3 (advanceStep 3 p) else endExecution k p
           | Stage3 \<Rightarrow> if ok then setPhase k (Marking (exec_orders (executions p ! k))) p
                       else endExecution k p
           | Marking rest \<Rightarrow> p
      else p)"

text \<open>The marking loop of the execution at position \<open>k\<close> goes on by one order, or ends.\<close>

definition markNext :: "nat \<Rightarrow> nat \<Rightarrow> vault_order option \<Rightarrow> page \<Rightarrow> page" where
  "markNext k now vaultOrder p =
     (if k < length (executions p)
      then let e = executions p ! k
           in case exec_phase e of
                Marking (order # rest) \<Rightarrow>
                  setPhase k (Marking rest)
                    (markOrderExecuted (order_id order) (executionPrice e) now vaultOrder p)
              | Marking [] \<Rightarrow>
                  endExecution k (countBatch (length (exec_orders e)) (combinedAmount e) p)
              | _ \<Rightarrow> p
      else p)"

fun fire :: "event \<Rightarrow> page \<Rightarrow> page" where
  "fire (StartClick price) p = startMonitoring price p"
| "fire StopClick p = stopMonitoring p"
| "fire (TimerFires price) p =
     (if timer p then checkPriceAndBuy price (p\<lparr>timer := False\<rparr>) else p)"
| "fire (AlarmFires vaultTab vendor) p = onAlarm vaultTab vendor p"
| "fire Reload p = reload p"
| "fire InitResumes p = init_resume p"
| "fire (TickResumes k) p =
     (if k < length (ticks p)
      then checkPriceAndBuy_rest (ticks p ! k) (p\<lparr>ticks := dropAt k (ticks p)\<rparr>)
      else p)"
| "fire (StepEnds k ok) p = stepEnds k ok p"
| "fire (MarkNext k now vaultOrder) p = markNext k now vaultOrder p"
| "fire (AddOrderClick targetInput amountInput price newId priceAtRestart) p =
     (case addOrderClick targetInput amountInput price newId priceAtRestart p of
        Inl r \<Rightarrow> p
      | Inr (p1, order) \<Rightarrow> p1)"
| "fire (RemoveClick orderId') p = removeOrder orderId' p"
| "fire (SaveClick budgetValue interval) p = saveClick budgetValue interval p"

fun run :: "event list \<Rightarrow> page \<Rightarrow> page" where
  "run [] p = p"
| "run (e # es) p = run es (fire e p)"

text \<open>
  The page after the script was loaded with the given storage and \<^verbatim>\<open>init\<close> ran to its
  end with nothing in between.
\<close>

definition load :: "settings_data \<Rightarrow> saved_state option \<Rightarrow> page" where
  "load stored persisted =
     init_resume (init_resume (init_resume
       \<lparr>STATE = \<lparr>buyProcessStarted = False, currentStep = 0, totalSpent = 0,
                  ordersExecuted = 0, isRunning = False, currentOrderIndex = None\<rparr>,
        settings = DEFAULT_SETTINGS, stored_settings = stored,
        stored_runningState = persisted, alarm = False, timer = False,
        ticks = [], executions = [], initStage = AwaitSettings\<rparr>))"

text \<open>The executions in one of the three numbered steps or marking their orders.\<close>

definition inFlight :: "page \<Rightarrow> nat" where
  "inFlight p = length (executions p)"


section \<open>Facts about the rounding\<close>

lemma findExponent_bounds: "- 1022 \<le> findExponent n a \<and> findExponent n a \<le> int n - 1022"
  by (induction n) auto

lemma findExponent_below:
  "findExponent n a = - 1022 \<or> 2 powi (findExponent n a) \<le> a"
  by (induction n) auto

lemma findExponent_greatest:
  "2 powi j \<le> a \<Longrightarrow> - 1022 \<le> j \<Longrightarrow> j \<le> int n - 1022 \<Longrightarrow> j \<le> findExponent n a"
proof (induction n)
  case 0
  then show ?case by simp
next
  case (Suc n)
  show ?case
  proof (cases "2 powi (int n - 1021) \<le> a")
    case True
    with Suc.prems show ?thesis by simp
  next
    case False
    with Suc.prems(1) have "j \<noteq> int n - 1021" by auto
    with Suc.prems have "j \<le> int n - 1022" by simp
    with Suc.IH Suc.prems False show ?thesis by simp
  qed
qed

lemma exponent_eqI:
  assumes "- 1022 \<le> e" and "e \<le> 1023" and "2 powi e \<le> \<bar>z\<bar>" and "\<bar>z\<bar> < 2 powi (e + 1)"
  shows "exponent z = e"
proof -
  have ge: "e \<le> exponent z"
    unfolding exponent_def using assms by (intro findExponent_greatest) simp_all
  have "exponent z \<le> e"
  proof (rule ccontr)
    assume "\<not> exponent z \<le> e"
    then have gt: "e + 1 \<le> exponent z" by simp
    with assms(1) findExponent_below [of 2045 "\<bar>z\<bar>"] have "2 powi (exponent z) \<le> \<bar>z\<bar>"
      by (auto simp: exponent_def)
    moreover have "(2::real) powi (e + 1) \<le> 2 powi (exponent z)"
      using gt by (intro power_int_increasing) simp_all
    ultimately show False using assms(4) by simp
  qed
  with ge show ?thesis by simp
qed

lemma exponent_small: "\<bar>z\<bar> < 2 powi (e + 1) \<Longrightarrow> - 1022 \<le> e \<Longrightarrow> exponent z \<le> e"
proof (rule ccontr)
  assume a: "\<bar>z\<bar> < 2 powi (e + 1)" "- 1022 \<le> e" "\<not> exponent z \<le> e"
  then have gt: "e + 1 \<le> exponent z" by simp
  with a(2) findExponent_below [of 2045 "\<bar>z\<bar>"] have "2 powi (exponent z) \<le> \<bar>z\<bar>"
    by (auto simp: exponent_def)
  moreover have "(2::real) powi (e + 1) \<le> 2 powi (exponent z)"
    using gt by (intro power_int_increasing) simp_all
  ultimately show False using a(1) by simp
qed

lemma exponent_large: "2 powi j \<le> \<bar>z\<bar> \<Longrightarrow> - 1022 \<le> j \<Longrightarrow> j \<le> 1023 \<Longrightarrow>
    j \<le> exponent z \<and> 2 powi (exponent z) \<le> \<bar>z\<bar>"
proof -
  assume a: "2 powi j \<le> \<bar>z\<bar>" "- 1022 \<le> j" "j \<le> 1023"
  then have ge: "j \<le> exponent z"
    unfolding exponent_def by (intro findExponent_greatest) simp_all
  show ?thesis
  proof (cases "exponent z = - 1022")
    case True
    with ge a have "j = exponent z" by simp
    with a ge show ?thesis by simp
  next
    case False
    with findExponent_below [of 2045 "\<bar>z\<bar>"] ge show ?thesis by (simp add: exponent_def)
  qed
qed

lemma roundHalfEven_floor: "\<lfloor>m\<rfloor> \<le> roundHalfEven m"
  by (simp add: roundHalfEven_def Let_def)

lemma roundHalfEven_int [simp]: "roundHalfEven (of_int k) = k"
  by (simp add: roundHalfEven_def Let_def)

lemma roundHalfEven_ge: "of_int k \<le> m \<Longrightarrow> k \<le> roundHalfEven m"
proof -
  assume "of_int k \<le> m"
  then have "k \<le> \<lfloor>m\<rfloor>" by (simp add: le_floor_iff)
  with roundHalfEven_floor [of m] show ?thesis by linarith
qed

lemma powi_nonpos_inverse: "e \<le> 0 \<Longrightarrow> x / 2 powi e = x * 2 ^ nat (- e)" for x :: real
proof -
  assume "e \<le> 0"
  then have "e = - int (nat (- e))" by simp
  then have "(2::real) powi e = inverse (2 ^ nat (- e))"
    by (metis power_int_minus power_int_of_nat)
  then show ?thesis by (simp add: field_simps)
qed

lemma roundDouble_Ints:
  assumes "z \<in> \<int>" and "\<bar>z\<bar> < 2 ^ 53"
  shows "roundDouble z = z"
proof -
  from assms(1) obtain k where k: "z = of_int k" by (auto elim: Ints_cases)
  have "\<bar>z\<bar> < 2 powi (52 + 1)" using assms(2) by simp
  then have e: "exponent z - 52 \<le> 0" using exponent_small [of z 52] by simp
  have "z / 2 powi (exponent z - 52) = of_int (k * 2 ^ nat (- (exponent z - 52)))"
    using powi_nonpos_inverse [OF e, of z] k by simp
  then have "roundHalfEven (z / 2 powi (exponent z - 52)) = k * 2 ^ nat (- (exponent z - 52))"
    by (simp only: roundHalfEven_int)
  then have "roundDouble z = 2 powi (exponent z - 52) * (z / 2 powi (exponent z - 52))"
    using powi_nonpos_inverse [OF e, of z] k by (simp add: roundDouble_def Let_def)
  then show ?thesis by simp
qed

lemma roundDouble_ge:
  assumes "1 \<le> c" and "c \<le> 2 ^ 53" and "of_int c \<le> z"
  shows "of_int c \<le> roundDouble z"
proof -
  have z1: "2 powi 0 \<le> \<bar>z\<bar>" using assms(1,3) by simp
  from exponent_large [OF z1] have e0: "0 \<le> exponent z" and le: "2 powi (exponent z) \<le> \<bar>z\<bar>"
    by simp_all
  have zpos: "0 < z" using assms(1,3) by linarith
  let ?e = "exponent z"
  let ?q = "(2::real) powi (?e - 52)"
  have qpos: "0 < ?q" by simp
  show ?thesis
  proof (cases "?e \<le> 52")
    case True
    then have e: "?e - 52 \<le> 0" by simp
    have "of_int (c * 2 ^ nat (- (?e - 52))) = of_int c / ?q"
      using powi_nonpos_inverse [OF e, of "of_int c"] by simp
    also have "\<dots> \<le> z / ?q" using assms(3) qpos by (simp add: divide_right_mono)
    finally have "c * 2 ^ nat (- (?e - 52)) \<le> roundHalfEven (z / ?q)"
      by (rule roundHalfEven_ge)
    then have "of_int (c * 2 ^ nat (- (?e - 52))) \<le> (of_int (roundHalfEven (z / ?q)) :: real)"
      by (simp only: of_int_le_iff)
    then have "?q * (of_int c / ?q) \<le> ?q * of_int (roundHalfEven (z / ?q))"
      using qpos powi_nonpos_inverse [OF e, of "of_int c"] by (simp only: mult_le_cancel_left_pos) simp
    then show ?thesis by (simp add: roundDouble_def Let_def)
  next
    case False
    then have big: "53 \<le> ?e" by simp
    have "(2::real) powi 52 = 2 powi ?e / ?q"
      by (simp add: power_int_diff)
    also have "\<dots> \<le> z / ?q" using le zpos qpos by (simp add: divide_right_mono)
    finally have "of_int (2 ^ 52) \<le> z / ?q" by simp
    then have "2 ^ 52 \<le> roundHalfEven (z / ?q)" by (rule roundHalfEven_ge)
    then have "(of_int (2 ^ 52) :: real) \<le> of_int (roundHalfEven (z / ?q))"
      by (simp only: of_int_le_iff)
    then have A: "?q * 2 powi 52 \<le> ?q * of_int (roundHalfEven (z / ?q))"
      using qpos by simp
    have B: "?q * 2 powi 52 = 2 powi ?e" by (simp add: power_int_diff)
    have C: "(2::real) powi 53 \<le> 2 powi ?e"
      using big by (intro power_int_increasing) simp_all
    have "c \<le> 9007199254740992" using assms(2) by simp
    then have "(of_int c :: real) \<le> of_int 9007199254740992" by (simp only: of_int_le_iff)
    then have D: "(of_int c :: real) \<le> 2 powi 53" by simp
    have rd: "roundDouble z = ?q * of_int (roundHalfEven (z / ?q))"
      by (simp add: roundDouble_def Let_def)
    note D
    also note C
    also note B [symmetric]
    also note A
    also note rd [symmetric]
    finally show ?thesis .
  qed
qed


lemma jsAdd_Ints: "x \<in> \<int> \<Longrightarrow> y \<in> \<int> \<Longrightarrow> \<bar>x + y\<bar> < 2 ^ 53 \<Longrightarrow> jsAdd x y = x + y"
  by (simp add: jsAdd_def roundDouble_Ints)

lemma jsSub_Ints: "x \<in> \<int> \<Longrightarrow> y \<in> \<int> \<Longrightarrow> \<bar>x - y\<bar> < 2 ^ 53 \<Longrightarrow> jsSub x y = x - y"
  by (simp add: jsSub_def roundDouble_Ints)

text \<open>
  The doubles nearest to 25.1, 25.3 and 50.4, and the sum of the first two as the code
  computes it: it is one unit in the last place above the third.
\<close>

lemma roundDouble_25_1: "roundDouble 25.1 = 3532510957718733 / 140737488355328"
proof -
  have "exponent 25.1 = 4" by (rule exponent_eqI) simp_all
  then show ?thesis by (simp add: roundDouble_def roundHalfEven_def Let_def)
qed

lemma roundDouble_25_3: "roundDouble 25.3 = 7121316910779597 / 281474976710656"
proof -
  have "exponent 25.3 = 4" by (rule exponent_eqI) simp_all
  then show ?thesis by (simp add: roundDouble_def roundHalfEven_def Let_def)
qed

lemma roundDouble_50_4: "roundDouble 50.4 = 7093169413108531 / 140737488355328"
proof -
  have "exponent 50.4 = 5" by (rule exponent_eqI) simp_all
  then show ?thesis by (simp add: roundDouble_def roundHalfEven_def Let_def)
qed

lemma jsAdd_zero_25_1:
  "jsAdd 0 (3532510957718733 / 140737488355328) = 3532510957718733 / 140737488355328"
proof -
  have "exponent (3532510957718733 / 140737488355328) = 4" by (rule exponent_eqI) simp_all
  then show ?thesis by (simp add: jsAdd_def roundDouble_def roundHalfEven_def Let_def)
qed

lemma jsAdd_25_1_25_3:
  "jsAdd (3532510957718733 / 140737488355328) (7121316910779597 / 281474976710656) =
   1773292353277133 / 35184372088832"
proof -
  have "exponent (3532510957718733 / 140737488355328 + 7121316910779597 / 281474976710656) = 5"
    by (rule exponent_eqI) simp_all
  then show ?thesis by (simp add: jsAdd_def roundDouble_def roundHalfEven_def Let_def)
qed

lemma jsSub_50_4_zero:
  "jsSub (7093169413108531 / 140737488355328) 0 = 7093169413108531 / 140737488355328"
proof -
  have "exponent (7093169413108531 / 140737488355328) = 5" by (rule exponent_eqI) simp_all
  then show ?thesis by (simp add: jsSub_def roundDouble_def roundHalfEven_def Let_def)
qed

section \<open>Batch selection\<close>

lemma greedyLoop_fst_acc:
  "fst (greedyLoop r os sel tot) = sel @ fst (greedyLoop r os [] tot)"
proof (induction os arbitrary: sel tot)
  case Nil
  show ?case by simp
next
  case (Cons x xs)
  show ?case
    using Cons.IH [of "sel @ [x]" "jsAdd tot (amount x)"] Cons.IH [of "[x]" "jsAdd tot (amount x)"]
      Cons.IH [of sel tot]
    by simp
qed

lemma greedyLoop_snd_acc:
  "snd (greedyLoop r os sel tot) = snd (greedyLoop r os [] tot)"
proof (induction os arbitrary: sel tot)
  case Nil
  show ?case by simp
next
  case (Cons x xs)
  show ?case
    using Cons.IH [of "sel @ [x]" "jsAdd tot (amount x)"] Cons.IH [of "[x]" "jsAdd tot (amount x)"]
      Cons.IH [of sel tot]
    by simp
qed

lemma greedyLoop_subseq: "subseq (fst (greedyLoop r os [] tot)) os"
proof (induction os arbitrary: tot)
  case Nil
  show ?case by simp
next
  case (Cons x xs)
  show ?case
    using Cons.IH [of tot] Cons.IH [of "jsAdd tot (amount x)"]
      greedyLoop_fst_acc [of r xs "[x]" "jsAdd tot (amount x)"]
    by (auto intro: list_emb_Cons)
qed

lemma greedyLoop_total:
  "snd (greedyLoop r os [] tot) =
   foldl (\<lambda>sum order. jsAdd sum (amount order)) tot (fst (greedyLoop r os [] tot))"
proof (induction os arbitrary: tot)
  case Nil
  show ?case by simp
next
  case (Cons x xs)
  show ?case
    using Cons.IH [of tot] Cons.IH [of "jsAdd tot (amount x)"]
      greedyLoop_fst_acc [of r xs "[x]" "jsAdd tot (amount x)"]
      greedyLoop_snd_acc [of r xs "[x]" "jsAdd tot (amount x)"]
    by simp
qed

lemma greedyLoop_within: "tot \<le> r \<Longrightarrow> snd (greedyLoop r os sel tot) \<le> r"
  by (induction os arbitrary: sel tot) auto

lemma greedyLoop_nonempty_within:
  "fst (greedyLoop r os [] tot) \<noteq> [] \<Longrightarrow> snd (greedyLoop r os [] tot) \<le> r"
proof (induction os arbitrary: tot)
  case Nil
  then show ?case by simp
next
  case (Cons x xs)
  show ?case
  proof (cases "jsAdd tot (amount x) \<le> r")
    case True
    then show ?thesis using greedyLoop_within [of "jsAdd tot (amount x)" r xs "[x]"] by simp
  next
    case False
    then show ?thesis using Cons by simp
  qed
qed

lemma greedyLoop_append:
  "greedyLoop r (xs @ ys) sel tot =
   greedyLoop r ys (fst (greedyLoop r xs sel tot)) (snd (greedyLoop r xs sel tot))"
  by (induction xs arbitrary: sel tot) auto

text \<open>
  The pass decides on each candidate by the total of what it accepted before it: at
  any place of the list, the selection is what was selected before that place, then
  the candidate at that place if and only if it still fits, then a selection from the
  rest.
\<close>

lemma greedyLoop_split:
  "\<exists>s1 s3. subseq s1 pre \<and> subseq s3 post
     \<and> fst (greedyLoop r (pre @ x # post) [] 0) =
         s1 @ (if jsAdd (sumAmounts s1) (amount x) \<le> r then [x] else []) @ s3"
proof -
  let ?s1 = "fst (greedyLoop r pre [] 0)"
  let ?t1 = "snd (greedyLoop r pre [] 0)"
  have t1: "?t1 = sumAmounts ?s1"
    using greedyLoop_total [of r pre 0] by (simp add: sumAmounts_def)
  have a: "greedyLoop r (pre @ x # post) [] 0 = greedyLoop r (x # post) ?s1 ?t1"
    by (rule greedyLoop_append)
  show ?thesis
  proof (cases "jsAdd ?t1 (amount x) \<le> r")
    case True
    let ?s3 = "fst (greedyLoop r post [] (jsAdd ?t1 (amount x)))"
    have "fst (greedyLoop r (pre @ x # post) [] 0) = (?s1 @ [x]) @ ?s3"
      using True a greedyLoop_fst_acc [of r post "?s1 @ [x]" "jsAdd ?t1 (amount x)"] by simp
    then have "fst (greedyLoop r (pre @ x # post) [] 0) =
        ?s1 @ (if jsAdd (sumAmounts ?s1) (amount x) \<le> r then [x] else []) @ ?s3"
      using True t1 by simp
    then show ?thesis using greedyLoop_subseq [of r pre 0] greedyLoop_subseq [of r post] by blast
  next
    case False
    let ?s3 = "fst (greedyLoop r post [] ?t1)"
    have "fst (greedyLoop r (pre @ x # post) [] 0) = ?s1 @ ?s3"
      using False a greedyLoop_fst_acc [of r post ?s1 ?t1] by simp
    then have "fst (greedyLoop r (pre @ x # post) [] 0) =
        ?s1 @ (if jsAdd (sumAmounts ?s1) (amount x) \<le> r then [x] else []) @ ?s3"
      using False t1 by simp
    then show ?thesis using greedyLoop_subseq [of r pre 0] greedyLoop_subseq [of r post] by blast
  qed
qed

lemma sum_from_25:
  "0 \<le> tot \<Longrightarrow> \<forall>x \<in> set os. 25 \<le> amount x \<Longrightarrow> os \<noteq> [] \<Longrightarrow>
   25 \<le> foldl (\<lambda>sum order. jsAdd sum (amount order)) tot os"
proof (induction os arbitrary: tot)
  case Nil
  then show ?case by simp
next
  case (Cons y ys)
  then have "of_int 25 \<le> tot + amount y" by simp
  then have t: "of_int 25 \<le> jsAdd tot (amount y)"
    unfolding jsAdd_def by (intro roundDouble_ge) simp_all
  show ?case
  proof (cases ys)
    case Nil
    with t show ?thesis by simp
  next
    case (Cons z zs)
    with Cons.IH [of "jsAdd tot (amount y)"] t Cons.prems show ?thesis by simp
  qed
qed

lemma greedyLoop_exhausted:
  "r \<le> 0 \<Longrightarrow> \<forall>x \<in> set os. 25 \<le> amount x \<Longrightarrow> greedyLoop r os sel 0 = (sel, 0)"
proof (induction os arbitrary: sel)
  case Nil
  show ?case by simp
next
  case (Cons y ys)
  then have "of_int 25 \<le> 0 + amount y" by simp
  then have "of_int 25 \<le> jsAdd 0 (amount y)"
    unfolding jsAdd_def by (intro roundDouble_ge) simp_all
  with Cons.prems(1) have "\<not> jsAdd 0 (amount y) \<le> r" by simp
  with Cons show ?case by simp
qed

lemma validateBatchExecution_fits:
  "sumAmounts os \<le> jsSub mb sp \<Longrightarrow>
   validateBatchExecution os mb sp = \<lparr>batch_orders = os, totalAmount = sumAmounts os\<rparr>"
  by (simp add: validateBatchExecution_def)

lemma validateBatchExecution_overflow:
  "\<not> sumAmounts os \<le> jsSub mb sp \<Longrightarrow>
   validateBatchExecution os mb sp =
     \<lparr>batch_orders = fst (greedyLoop (jsSub mb sp) os [] 0),
      totalAmount = snd (greedyLoop (jsSub mb sp) os [] 0)\<rparr>"
  by (simp add: validateBatchExecution_def split: prod.splits)

lemma validateBatchExecution_subseq: "subseq (batch_orders (validateBatchExecution os mb sp)) os"
  by (cases "sumAmounts os \<le> jsSub mb sp")
     (simp_all add: validateBatchExecution_fits validateBatchExecution_overflow greedyLoop_subseq)

lemma validateBatchExecution_total:
  "totalAmount (validateBatchExecution os mb sp) =
   sumAmounts (batch_orders (validateBatchExecution os mb sp))"
proof (cases "sumAmounts os \<le> jsSub mb sp")
  case True
  then show ?thesis by (simp add: validateBatchExecution_fits)
next
  case False
  then show ?thesis
    using greedyLoop_total [of "jsSub mb sp" os 0]
    by (simp add: validateBatchExecution_overflow sumAmounts_def)
qed

lemma validateBatchExecution_within:
  "0 \<le> jsSub mb sp \<or> batch_orders (validateBatchExecution os mb sp) \<noteq> [] \<Longrightarrow>
   totalAmount (validateBatchExecution os mb sp) \<le> jsSub mb sp"
proof (cases "sumAmounts os \<le> jsSub mb sp")
  case True
  then show ?thesis by (simp add: validateBatchExecution_fits)
next
  case False
  assume "0 \<le> jsSub mb sp \<or> batch_orders (validateBatchExecution os mb sp) \<noteq> []"
  with False have "0 \<le> jsSub mb sp \<or> fst (greedyLoop (jsSub mb sp) os [] 0) \<noteq> []"
    by (simp add: validateBatchExecution_overflow)
  then have "snd (greedyLoop (jsSub mb sp) os [] 0) \<le> jsSub mb sp"
    using greedyLoop_within [of 0 "jsSub mb sp" os "[]"]
      greedyLoop_nonempty_within [of "jsSub mb sp" os 0]
    by blast
  with False show ?thesis by (simp add: validateBatchExecution_overflow)
qed

lemma validateBatchExecution_split:
  assumes "\<not> sumAmounts os \<le> jsSub mb sp" and "os = pre @ x # post"
  shows "\<exists>s1 s3. subseq s1 pre \<and> subseq s3 post
     \<and> batch_orders (validateBatchExecution os mb sp) =
         s1 @ (if jsAdd (sumAmounts s1) (amount x) \<le> jsSub mb sp then [x] else []) @ s3"
  using greedyLoop_split [of pre post "jsSub mb sp" x] assms
  by (simp add: validateBatchExecution_overflow)

lemma validateBatchExecution_exhausted:
  assumes "jsSub mb sp \<le> 0" and "\<forall>x \<in> set os. 25 \<le> amount x"
  shows "batch_orders (validateBatchExecution os mb sp) = []"
proof (cases os)
  case Nil
  then show ?thesis using validateBatchExecution_subseq [of os mb sp] by simp
next
  case (Cons y ys)
  then have "25 \<le> sumAmounts os"
    unfolding sumAmounts_def using assms(2) by (intro sum_from_25) simp_all
  with assms(1) have "\<not> sumAmounts os \<le> jsSub mb sp" by simp
  then show ?thesis
    using greedyLoop_exhausted [OF assms, of "[]"]
    by (simp add: validateBatchExecution_overflow)
qed

text \<open>
  C1 (as amended). With \<open>remaining = maxBudget - totalSpent\<close> and all sums taken in
  double arithmetic, in the order the code adds, \<^verbatim>\<open>validateBatchExecution\<close> returns the
  whole candidate list and its sum when that sum is at most \<open>remaining\<close>; otherwise it
  returns the result of the single greedy pass in the given order: at every place of
  the list, the candidate there is selected if and only if its amount added to the sum
  of what was selected before it is at most \<open>remaining\<close>. In both cases the selection
  is a subsequence of the candidates in their order, the total is the sum of the
  selected amounts, and the total is at most \<open>remaining\<close> as soon as \<open>remaining\<close> is
  not negative or something was selected. No candidates give an empty selection, and so
  does \<open>remaining \<le> 0\<close> when every amount is at least the minimum of 25. The selection
  need not be a prefix of the candidates.
\<close>

theorem validateBatchExecution_greedy:
  "(sumAmounts os \<le> jsSub mb sp \<longrightarrow>
      validateBatchExecution os mb sp = \<lparr>batch_orders = os, totalAmount = sumAmounts os\<rparr>)
   \<and> (\<not> sumAmounts os \<le> jsSub mb sp \<longrightarrow>
      validateBatchExecution os mb sp =
        \<lparr>batch_orders = fst (greedyLoop (jsSub mb sp) os [] 0),
         totalAmount = snd (greedyLoop (jsSub mb sp) os [] 0)\<rparr>
      \<and> (\<forall>pre x post. os = pre @ x # post \<longrightarrow>
           (\<exists>s1 s3. subseq s1 pre \<and> subseq s3 post
              \<and> batch_orders (validateBatchExecution os mb sp) =
                  s1 @ (if jsAdd (sumAmounts s1) (amount x) \<le> jsSub mb sp then [x] else [])
                     @ s3)))
   \<and> subseq (batch_orders (validateBatchExecution os mb sp)) os
   \<and> totalAmount (validateBatchExecution os mb sp) =
       sumAmounts (batch_orders (validateBatchExecution os mb sp))
   \<and> (0 \<le> jsSub mb sp \<or> batch_orders (validateBatchExecution os mb sp) \<noteq> [] \<longrightarrow>
        totalAmount (validateBatchExecution os mb sp) \<le> jsSub mb sp)
   \<and> (os = [] \<longrightarrow> batch_orders (validateBatchExecution os mb sp) = [])
   \<and> (jsSub mb sp \<le> 0 \<and> (\<forall>x \<in> set os. 25 \<le> amount x) \<longrightarrow>
        batch_orders (validateBatchExecution os mb sp) = [])"
proof -
  have "os = [] \<longrightarrow> batch_orders (validateBatchExecution os mb sp) = []"
    using validateBatchExecution_subseq [of os mb sp] by auto
  then show ?thesis
    using validateBatchExecution_fits [of os mb sp] validateBatchExecution_overflow [of os mb sp]
      validateBatchExecution_subseq [of os mb sp] validateBatchExecution_total [of os mb sp]
      validateBatchExecution_within [of mb sp os] validateBatchExecution_split [of os mb sp]
      validateBatchExecution_exhausted [of mb sp os]
    by blast
qed

text \<open>The definitions and the arithmetic a run on whole amounts unfolds.\<close>

lemmas whole_amounts =
  validateBatchExecution_def sumAmounts_def newOrder_def jsAdd_Ints jsSub_Ints

theorem validateBatchExecution_greedy_witness:
  "\<not> sumAmounts [newOrder ''x'' 3.0 60, newOrder ''y'' 3.1 50, newOrder ''z'' 3.2 40]
        \<le> jsSub 100 0
   \<and> (0::real) \<le> jsSub 100 0
   \<and> validateBatchExecution
        [newOrder ''x'' 3.0 60, newOrder ''y'' 3.1 50, newOrder ''z'' 3.2 40] 100 0 =
      \<lparr>batch_orders = [newOrder ''x'' 3.0 60, newOrder ''z'' 3.2 40], totalAmount = 100\<rparr>
   \<and> [newOrder ''x'' 3.0 60, newOrder ''y'' 3.1 50, newOrder ''z'' 3.2 40] =
       [newOrder ''x'' 3.0 60] @ newOrder ''y'' 3.1 50 # [newOrder ''z'' 3.2 40]
   \<and> \<not> jsAdd (sumAmounts [newOrder ''x'' 3.0 60]) (amount (newOrder ''y'' 3.1 50))
        \<le> jsSub 100 0
   \<and> sumAmounts [newOrder ''c'' 3.0 100, newOrder ''b'' 3.1 100, newOrder ''a'' 3.2 100]
        \<le> jsSub 300 0
   \<and> validateBatchExecution
        [newOrder ''c'' 3.0 100, newOrder ''b'' 3.1 100, newOrder ''a'' 3.2 100] 300 0 =
      \<lparr>batch_orders = [newOrder ''c'' 3.0 100, newOrder ''b'' 3.1 100, newOrder ''a'' 3.2 100],
       totalAmount = 300\<rparr>
   \<and> jsSub 300 300 \<le> 0
   \<and> list_all (\<lambda>x. 25 \<le> amount x) [newOrder ''c'' 3.0 100]
   \<and> batch_orders (validateBatchExecution [newOrder ''c'' 3.0 100] 300 300) = []
   \<and> batch_orders (validateBatchExecution [] 300 0) = []"
  using validateBatchExecution_greedy
      [of "[newOrder ''x'' 3.0 60, newOrder ''y'' 3.1 50, newOrder ''z'' 3.2 40]" 100 0]
    validateBatchExecution_greedy
      [of "[newOrder ''c'' 3.0 100, newOrder ''b'' 3.1 100, newOrder ''a'' 3.2 100]" 300 0]
    validateBatchExecution_greedy [of "[newOrder ''c'' 3.0 100]" 300 300]
    validateBatchExecution_greedy [of "[]" 300 0]
  by (simp add: whole_amounts)

text \<open>
  C1 as stated fails in two places. With 100 remaining and candidates of 60, 50 and 40
  (in ascending target order), the candidate of 50 is skipped and the later, cheaper one
  of 40 is kept, so the selection is not a prefix of the candidates. With a budget of
  250 of which 300 are spent, nothing is selected and the total is 0, which is above
  the remaining budget of -50.
\<close>

theorem validateBatchExecution_not_prefix:
  "batch_orders (validateBatchExecution
      [newOrder ''x'' 3.0 60, newOrder ''y'' 3.1 50, newOrder ''z'' 3.2 40] 100 0) =
     [newOrder ''x'' 3.0 60, newOrder ''z'' 3.2 40]
   \<and> \<not> prefix
        (batch_orders (validateBatchExecution
           [newOrder ''x'' 3.0 60, newOrder ''y'' 3.1 50, newOrder ''z'' 3.2 40] 100 0))
        [newOrder ''x'' 3.0 60, newOrder ''y'' 3.1 50, newOrder ''z'' 3.2 40]
   \<and> amount (newOrder ''z'' 3.2 40) < amount (newOrder ''y'' 3.1 50)
   \<and> validateBatchExecution [newOrder ''c'' 3.0 100] 250 300 =
       \<lparr>batch_orders = [], totalAmount = 0\<rparr>
   \<and> jsSub 250 300 = - 50
   \<and> \<not> totalAmount (validateBatchExecution [newOrder ''c'' 3.0 100] 250 300) \<le> jsSub 250 300"
  by (simp add: whole_amounts)

text \<open>
  The sums are the code's: for orders of 25.1 and 25.3 with a budget of 50.4, all three
  read as doubles, the sum of the two amounts is above the budget by one unit in the
  last place, and only the first order is selected.
\<close>

lemma validateBatchExecution_rounds:
  "validateBatchExecution
     [newOrder ''p'' 3 (roundDouble 25.1), newOrder ''q'' 3 (roundDouble 25.3)]
     (roundDouble 50.4) 0 =
   \<lparr>batch_orders = [newOrder ''p'' 3 (roundDouble 25.1)], totalAmount = roundDouble 25.1\<rparr>"
  unfolding roundDouble_25_1 roundDouble_25_3 roundDouble_50_4
  by (simp add: validateBatchExecution_def sumAmounts_def newOrder_def jsAdd_zero_25_1
      jsAdd_25_1_25_3 jsSub_50_4_zero)

section \<open>Executable orders\<close>

lemma findExecutableOrders_set:
  "set (findExecutableOrders s cp) =
   {ord \<in> set (orders s). status ord = Pending \<and> cp \<le> targetPrice ord}"
  by (auto simp: findExecutableOrders_def)

text \<open>
  C2. \<^verbatim>\<open>findExecutableOrders\<close> returns exactly the pending orders with
  \<open>currentPrice \<le> targetPrice\<close> (as a multiset), never an order with
  \<open>currentPrice > targetPrice\<close>, sorted ascending by \<open>targetPrice\<close>; orders with
  the same \<open>targetPrice\<close> keep the relative order they have in the collection.
\<close>

theorem findExecutableOrders_sorted_stable:
  "mset (findExecutableOrders s cp) =
     mset (filter (\<lambda>ord. status ord = Pending \<and> cp \<le> targetPrice ord) (orders s))
   \<and> (\<forall>ord \<in> set (findExecutableOrders s cp).
         ord \<in> set (orders s) \<and> status ord = Pending \<and> \<not> cp > targetPrice ord)
   \<and> sorted (map targetPrice (findExecutableOrders s cp))
   \<and> (\<forall>k. filter (\<lambda>ord. targetPrice ord = k) (findExecutableOrders s cp) =
            filter (\<lambda>ord. targetPrice ord = k)
              (filter (\<lambda>ord. status ord = Pending \<and> cp \<le> targetPrice ord) (orders s)))"
proof -
  have "mset (findExecutableOrders s cp) =
        mset (filter (\<lambda>ord. status ord = Pending \<and> cp \<le> targetPrice ord) (orders s))"
    by (simp add: findExecutableOrders_def)
  moreover have "\<forall>ord \<in> set (findExecutableOrders s cp).
        ord \<in> set (orders s) \<and> status ord = Pending \<and> \<not> cp > targetPrice ord"
    by (auto simp: findExecutableOrders_set)
  moreover have "sorted (map targetPrice (findExecutableOrders s cp))"
    by (simp add: findExecutableOrders_def)
  moreover have "\<forall>k. filter (\<lambda>ord. targetPrice ord = k) (findExecutableOrders s cp) =
        filter (\<lambda>ord. targetPrice ord = k)
          (filter (\<lambda>ord. status ord = Pending \<and> cp \<le> targetPrice ord) (orders s))"
    unfolding findExecutableOrders_def by (rule allI, rule sort_key_stable)
  ultimately show ?thesis by blast
qed

theorem findExecutableOrders_sorted_stable_witness:
  "findExecutableOrders
     \<lparr>maxBudget = 300, refreshInterval = 5,
      orders = [newOrder ''a'' 3.2 100, newOrder ''b'' 3.1 100,
                (newOrder ''e'' 3.1 40)\<lparr>status := Executed\<rparr>, newOrder ''l'' 2.5 30,
                newOrder ''c'' 3.0 100, newOrder ''d'' 3.1 25]\<rparr> 2.9 =
     [newOrder ''c'' 3.0 100, newOrder ''b'' 3.1 100, newOrder ''d'' 3.1 25,
      newOrder ''a'' 3.2 100]
   \<and> list_all (\<lambda>ord. status ord = Pending \<and> \<not> 2.9 > targetPrice ord)
        [newOrder ''c'' 3.0 100, newOrder ''b'' 3.1 100, newOrder ''d'' 3.1 25,
         newOrder ''a'' 3.2 100]
   \<and> sorted (map targetPrice [newOrder ''c'' 3.0 100, newOrder ''b'' 3.1 100,
                               newOrder ''d'' 3.1 25, newOrder ''a'' 3.2 100])"
  using findExecutableOrders_sorted_stable
      [of "\<lparr>maxBudget = 300, refreshInterval = 5,
            orders = [newOrder ''a'' 3.2 100, newOrder ''b'' 3.1 100,
                      (newOrder ''e'' 3.1 40)\<lparr>status := Executed\<rparr>, newOrder ''l'' 2.5 30,
                      newOrder ''c'' 3.0 100, newOrder ''d'' 3.1 25]\<rparr>" "2.9"]
  by (simp add: findExecutableOrders_def newOrder_def)

section \<open>The page after an uninterrupted start\<close>

lemma load_eq:
  "load stored persisted =
     (let wasRunning = (case persisted of None \<Rightarrow> False
                        | Some persistedState \<Rightarrow> saved_isRunning persistedState);
          wasBuying = (case persisted of None \<Rightarrow> False
                       | Some persistedState \<Rightarrow> saved_buyProcessStarted persistedState);
          p = \<lparr>STATE = \<lparr>buyProcessStarted = False, currentStep = 0,
                        totalSpent = calculateTotalSpent stored,
                        ordersExecuted = length (getExecutedOrders stored),
                        isRunning = wasRunning, currentOrderIndex = None\<rparr>,
               settings = stored, stored_settings = stored, stored_runningState = persisted,
               alarm = False, timer = False, ticks = [], executions = [],
               initStage = InitDone\<rparr>
      in if wasRunning \<and> \<not> wasBuying then (persistState p)\<lparr>timer := True\<rparr>
         else if wasBuying
         then (persistState
                 (p\<lparr>STATE := (STATE p)\<lparr>buyProcessStarted := False, currentStep := 0\<rparr>\<rparr>))
                \<lparr>timer := True\<rparr>
         else p)"
  by (simp add: load_def init_resume_def Let_def persistState_def)

section \<open>Order store: what the operations do\<close>

lemma settings_persistState [simp]: "settings (persistState p) = settings p"
  and stored_settings_persistState [simp]: "stored_settings (persistState p) = stored_settings p"
  and STATE_persistState [simp]: "STATE (persistState p) = STATE p"
  and executions_persistState [simp]: "executions (persistState p) = executions p"
  by (simp_all add: persistState_def)

lemma settings_scheduleRefresh [simp]: "settings (scheduleRefresh p) = settings p"
  and stored_settings_scheduleRefresh [simp]:
    "stored_settings (scheduleRefresh p) = stored_settings p"
  and STATE_scheduleRefresh [simp]: "STATE (scheduleRefresh p) = STATE p"
  and executions_scheduleRefresh [simp]: "executions (scheduleRefresh p) = executions p"
  by (simp_all add: scheduleRefresh_def)

lemma settings_stopMonitoring [simp]: "settings (stopMonitoring p) = settings p"
  and stored_settings_stopMonitoring [simp]:
    "stored_settings (stopMonitoring p) = stored_settings p"
  and executions_stopMonitoring [simp]: "executions (stopMonitoring p) = executions p"
  and buyProcessStarted_stopMonitoring [simp]:
    "buyProcessStarted (STATE (stopMonitoring p)) = buyProcessStarted (STATE p)"
  and isRunning_stopMonitoring [simp]: "\<not> isRunning (STATE (stopMonitoring p))"
  by (simp_all add: stopMonitoring_def cancelRefresh_def)

lemma settings_checkPriceAndBuy [simp]: "settings (checkPriceAndBuy price p) = settings p"
  and stored_settings_checkPriceAndBuy [simp]:
    "stored_settings (checkPriceAndBuy price p) = stored_settings p"
  and executions_checkPriceAndBuy [simp]:
    "executions (checkPriceAndBuy price p) = executions p"
  and buyProcessStarted_checkPriceAndBuy [simp]:
    "buyProcessStarted (STATE (checkPriceAndBuy price p)) = buyProcessStarted (STATE p)"
  by (simp_all add: checkPriceAndBuy_def split: option.splits)

lemma settings_startMonitoring [simp]: "settings (startMonitoring price p) = settings p"
  and stored_settings_startMonitoring [simp]:
    "stored_settings (startMonitoring price p) = stored_settings p"
  and executions_startMonitoring [simp]:
    "executions (startMonitoring price p) = executions p"
  and buyProcessStarted_startMonitoring [simp]:
    "buyProcessStarted (STATE (startMonitoring price p)) = buyProcessStarted (STATE p)"
  by (simp_all add: startMonitoring_def)

lemma addOrder_orders:
  "orders (settings (fst (addOrder newId t a p))) = orders (settings p) @ [newOrder newId t a]"
  and addOrder_stored: "stored_settings (fst (addOrder newId t a p)) = settings (fst (addOrder newId t a p))"
  and addOrder_snd: "snd (addOrder newId t a p) = newOrder newId t a"
  by (simp_all add: addOrder_def saveSettings_def Let_def)

lemma find_None_iff_id:
  "find (\<lambda>ord. order_id ord = i) xs = None \<longleftrightarrow> (\<forall>ord \<in> set xs. order_id ord \<noteq> i)"
  by (auto simp: find_None_iff)

lemma find_first_id:
  "\<forall>y \<in> set pre. order_id y \<noteq> order_id x \<Longrightarrow>
   find (\<lambda>ord. order_id ord = order_id x) (pre @ x # post) = Some x"
  by (induction pre) auto

lemma spliceFirst_split:
  "\<forall>y \<in> set pre. order_id y \<noteq> order_id x \<Longrightarrow>
   spliceFirst (order_id x) (pre @ x # post) = pre @ post"
  by (induction pre) auto

lemma updateFirst_split:
  "\<forall>y \<in> set pre. order_id y \<noteq> order_id x \<Longrightarrow>
   updateFirst (order_id x) f (pre @ x # post) = pre @ f x # post"
  by (induction pre) auto

text \<open>
  C8 (as amended). The checks are in the Add Order click handler, the only caller of
  \<^verbatim>\<open>addOrder\<close>; \<^verbatim>\<open>addOrder\<close> itself checks nothing. The handler returns early,
  with a warning and no exception, and leaves the whole page unchanged, whenever
  \<open>amount < 25\<close>, \<open>targetPrice \<le> 0\<close>, the target is above the price read from the page
  (when one can be read), or no max budget is configured. With a max budget configured,
  a positive target not above the price read and \<open>amount \<ge> 25\<close>, it appends exactly one
  new order with status pending at the end of the collection, persists the settings and
  returns the order; the pending orders afterwards are the old ones followed by the new
  one, the executed orders are the same.
\<close>

theorem addOrderClick_checks:
  "(a < 25 \<or> t \<le> 0 \<or> (\<exists>cp. price = Some cp \<and> cp < t) \<or> maxBudget (settings p) \<le> 0 \<longrightarrow>
      (\<exists>r. addOrderClick (Some t) (Some a) price newId price2 p = Inl r)
      \<and> fire (AddOrderClick (Some t) (Some a) price newId price2) p = p)
   \<and> (0 < maxBudget (settings p) \<and> 0 < t \<and> 25 \<le> a \<and> (\<forall>cp. price = Some cp \<longrightarrow> t \<le> cp) \<longrightarrow>
      (\<exists>p'. addOrderClick (Some t) (Some a) price newId price2 p = Inr (p', newOrder newId t a)
         \<and> fire (AddOrderClick (Some t) (Some a) price newId price2) p = p'
         \<and> orders (settings p') = orders (settings p) @ [newOrder newId t a]
         \<and> getPendingOrders (settings p') =
             getPendingOrders (settings p) @ [newOrder newId t a]
         \<and> getExecutedOrders (settings p') = getExecutedOrders (settings p)
         \<and> stored_settings p' = settings p')
      \<and> status (newOrder newId t a) = Pending
      \<and> targetPrice (newOrder newId t a) = t \<and> amount (newOrder newId t a) = a)"
proof -
  have rej: "a < 25 \<or> t \<le> 0 \<or> (\<exists>cp. price = Some cp \<and> cp < t) \<or> maxBudget (settings p) \<le> 0 \<Longrightarrow>
      \<exists>r. addOrderClick (Some t) (Some a) price newId price2 p = Inl r"
    by (auto simp: addOrderClick_def split: option.splits prod.splits)
  have acc: "\<exists>p'. addOrderClick (Some t) (Some a) price newId price2 p = Inr (p', newOrder newId t a)
         \<and> orders (settings p') = orders (settings p) @ [newOrder newId t a]
         \<and> stored_settings p' = settings p'"
    if "0 < maxBudget (settings p)" "0 < t" "25 \<le> a" "\<forall>cp. price = Some cp \<longrightarrow> t \<le> cp"
  proof -
    obtain p1 ord where e: "addOrder newId t a p = (p1, ord)" by (cases "addOrder newId t a p")
    with addOrder_orders [of newId t a p] addOrder_stored [of newId t a p]
      addOrder_snd [of newId t a p]
    have "orders (settings p1) = orders (settings p) @ [newOrder newId t a]"
      and "stored_settings p1 = settings p1" and "ord = newOrder newId t a"
      by simp_all
    with that e show ?thesis
      by (auto simp: addOrderClick_def split: option.splits)
  qed
  have st: "status (newOrder newId t a) = Pending \<and> targetPrice (newOrder newId t a) = t
      \<and> amount (newOrder newId t a) = a"
    by (simp add: newOrder_def)
  show ?thesis
  proof (intro conjI impI)
    assume h: "a < 25 \<or> t \<le> 0 \<or> (\<exists>cp. price = Some cp \<and> cp < t) \<or> maxBudget (settings p) \<le> 0"
    from rej [OF h] show "\<exists>r. addOrderClick (Some t) (Some a) price newId price2 p = Inl r" .
    from rej [OF h] show "fire (AddOrderClick (Some t) (Some a) price newId price2) p = p"
      by auto
  next
    assume h: "0 < maxBudget (settings p) \<and> 0 < t \<and> 25 \<le> a \<and> (\<forall>cp. price = Some cp \<longrightarrow> t \<le> cp)"
    then obtain p' where
      p': "addOrderClick (Some t) (Some a) price newId price2 p = Inr (p', newOrder newId t a)"
        "orders (settings p') = orders (settings p) @ [newOrder newId t a]"
        "stored_settings p' = settings p'"
      using acc by blast
    then show "\<exists>p'. addOrderClick (Some t) (Some a) price newId price2 p = Inr (p', newOrder newId t a)
         \<and> fire (AddOrderClick (Some t) (Some a) price newId price2) p = p'
         \<and> orders (settings p') = orders (settings p) @ [newOrder newId t a]
         \<and> getPendingOrders (settings p') =
             getPendingOrders (settings p) @ [newOrder newId t a]
         \<and> getExecutedOrders (settings p') = getExecutedOrders (settings p)
         \<and> stored_settings p' = settings p'"
      using st by (intro exI [of _ p']) (simp add: getPendingOrders_def getExecutedOrders_def)
  qed (simp_all add: st)
qed


theorem addOrderClick_checks_witness:
  "0 < maxBudget (settings (load \<lparr>maxBudget = 300, refreshInterval = 5, orders = []\<rparr> None))
   \<and> (0::real) < 3 \<and> (25::real) \<le> 100 \<and> (3::real) \<le> 3.5
   \<and> orders (settings (fire (AddOrderClick (Some 3) (Some 100) (Some 3.5) ''n'' (Some 3.5))
         (load \<lparr>maxBudget = 300, refreshInterval = 5, orders = []\<rparr> None))) =
       [newOrder ''n'' 3 100]
   \<and> getPendingOrders (settings (fire (AddOrderClick (Some 3) (Some 100) (Some 3.5) ''n'' (Some 3.5))
         (load \<lparr>maxBudget = 300, refreshInterval = 5, orders = []\<rparr> None))) =
       [newOrder ''n'' 3 100]
   \<and> (10::real) < 25
   \<and> fire (AddOrderClick (Some 3) (Some 10) (Some 3.5) ''n'' (Some 3.5))
         (load \<lparr>maxBudget = 300, refreshInterval = 5, orders = []\<rparr> None) =
       load \<lparr>maxBudget = 300, refreshInterval = 5, orders = []\<rparr> None"
  using addOrderClick_checks [of 100 3 "Some 3.5"
      "load \<lparr>maxBudget = 300, refreshInterval = 5, orders = []\<rparr> None" "''n''" "Some 3.5"]
    addOrderClick_checks [of 10 3 "Some 3.5"
      "load \<lparr>maxBudget = 300, refreshInterval = 5, orders = []\<rparr> None" "''n''" "Some 3.5"]
  by (auto simp: load_eq Let_def getPendingOrders_def)

text \<open>
  C8 as stated fails in both readings of \<open>add\<close>: with no max budget configured the
  handler refuses a valid order (target 3, amount 100, price 3.5), and \<^verbatim>\<open>addOrder\<close>
  called directly appends an order of amount 10.
\<close>

theorem addOrderClick_unconfigured_budget:
  "addOrderClick (Some 3) (Some 100) (Some 3.5) ''n'' (Some 3.5) (load DEFAULT_SETTINGS None) =
     Inl BudgetNotConfigured
   \<and> orders (settings (fire (AddOrderClick (Some 3) (Some 100) (Some 3.5) ''n'' (Some 3.5))
         (load DEFAULT_SETTINGS None))) = []
   \<and> orders (settings (fst (addOrder ''n'' 3 10
         (load \<lparr>maxBudget = 300, refreshInterval = 5, orders = []\<rparr> None)))) =
       [newOrder ''n'' 3 10]"
  by (simp add: addOrderClick_def addOrder_def saveSettings_def load_eq Let_def
      DEFAULT_SETTINGS_def)

text \<open>
  C9 (as amended). \<^verbatim>\<open>markOrderExecuted\<close> is a silent no-op, the page unchanged and no
  error raised, when no order has the identifier. Otherwise it sets status, fill price
  and fill time (and the vault reference, when one is found on the page) on the first
  order with that identifier, whatever the status of that order is, leaves its
  identifier, target and amount and every other order as they are, and persists the
  settings.
\<close>

theorem markOrderExecuted_effect:
  "((\<forall>ord \<in> set (orders (settings p)). order_id ord \<noteq> i) \<longrightarrow>
      markOrderExecuted i price now v p = p)
   \<and> (\<forall>pre x post. orders (settings p) = pre @ x # post \<and> order_id x = i
         \<and> (\<forall>y \<in> set pre. order_id y \<noteq> i) \<longrightarrow>
       orders (settings (markOrderExecuted i price now v p)) = pre @ fill price now v x # post
       \<and> stored_settings (markOrderExecuted i price now v p) =
           settings (markOrderExecuted i price now v p)
       \<and> STATE (markOrderExecuted i price now v p) = STATE p)
   \<and> status (fill price now v x) = Executed
   \<and> executedPrice (fill price now v x) = Some price
   \<and> filledAt (fill price now v x) = Some now
   \<and> order_id (fill price now v x) = order_id x
   \<and> targetPrice (fill price now v x) = targetPrice x
   \<and> amount (fill price now v x) = amount x
   \<and> vaultOrderId (fill price now v x) =
       (case v of None \<Rightarrow> vaultOrderId x | Some w \<Rightarrow> Some (orderId w))
   \<and> vaultOrderUrl (fill price now v x) =
       (case v of None \<Rightarrow> vaultOrderUrl x | Some w \<Rightarrow> detailsUrl w)"
proof -
  have a: "(\<forall>ord \<in> set (orders (settings p)). order_id ord \<noteq> i) \<longrightarrow>
      markOrderExecuted i price now v p = p"
    by (simp add: markOrderExecuted_def find_None_iff_id [symmetric])
  have b: "orders (settings (markOrderExecuted i price now v p)) = pre @ fill price now v x # post
       \<and> stored_settings (markOrderExecuted i price now v p) =
           settings (markOrderExecuted i price now v p)
       \<and> STATE (markOrderExecuted i price now v p) = STATE p"
    if "orders (settings p) = pre @ x # post" "order_id x = i" "\<forall>y \<in> set pre. order_id y \<noteq> i"
    for pre x post
    using that find_first_id [of pre x post] updateFirst_split [of pre x "fill price now v" post]
    by (simp add: markOrderExecuted_def saveSettings_def)
  have c: "status (fill price now v x) = Executed
   \<and> executedPrice (fill price now v x) = Some price
   \<and> filledAt (fill price now v x) = Some now
   \<and> order_id (fill price now v x) = order_id x
   \<and> targetPrice (fill price now v x) = targetPrice x
   \<and> amount (fill price now v x) = amount x
   \<and> vaultOrderId (fill price now v x) =
       (case v of None \<Rightarrow> vaultOrderId x | Some w \<Rightarrow> Some (orderId w))
   \<and> vaultOrderUrl (fill price now v x) =
       (case v of None \<Rightarrow> vaultOrderUrl x | Some w \<Rightarrow> detailsUrl w)"
    by (simp add: fill_def split: option.splits)
  from a b c show ?thesis by blast
qed

theorem markOrderExecuted_effect_witness:
  "orders (settings (load \<lparr>maxBudget = 300, refreshInterval = 5,
       orders = [newOrder ''a'' 3.2 100, newOrder ''b'' 3.1 100]\<rparr> None)) =
     [newOrder ''a'' 3.2 100] @ newOrder ''b'' 3.1 100 # []
   \<and> order_id (newOrder ''b'' 3.1 100) = ''b''
   \<and> list_all (\<lambda>y. order_id y \<noteq> ''b'') [newOrder ''a'' 3.2 100]
   \<and> orders (settings (markOrderExecuted ''b'' 2.9 7 None
        (load \<lparr>maxBudget = 300, refreshInterval = 5,
           orders = [newOrder ''a'' 3.2 100, newOrder ''b'' 3.1 100]\<rparr> None))) =
     [newOrder ''a'' 3.2 100,
      (newOrder ''b'' 3.1 100)\<lparr>status := Executed, executedPrice := Some 2.9,
                                filledAt := Some 7\<rparr>]
   \<and> list_all (\<lambda>ord. order_id ord \<noteq> ''q'') [newOrder ''a'' 3.2 100, newOrder ''b'' 3.1 100]
   \<and> markOrderExecuted ''q'' 2.9 7 None
        (load \<lparr>maxBudget = 300, refreshInterval = 5,
           orders = [newOrder ''a'' 3.2 100, newOrder ''b'' 3.1 100]\<rparr> None) =
      load \<lparr>maxBudget = 300, refreshInterval = 5,
           orders = [newOrder ''a'' 3.2 100, newOrder ''b'' 3.1 100]\<rparr> None"
  using markOrderExecuted_effect [of
      "load \<lparr>maxBudget = 300, refreshInterval = 5,
         orders = [newOrder ''a'' 3.2 100, newOrder ''b'' 3.1 100]\<rparr> None" "''b''" "2.9" 7 None]
    markOrderExecuted_effect [of
      "load \<lparr>maxBudget = 300, refreshInterval = 5,
         orders = [newOrder ''a'' 3.2 100, newOrder ''b'' 3.1 100]\<rparr> None" "''q''" "2.9" 7 None]
  by (simp add: load_eq Let_def newOrder_def markOrderExecuted_def fill_def saveSettings_def)

text \<open>
  C9 as stated fails: for an order already executed at 2.9 the call does not fail and
  does not leave the orders unchanged; it overwrites the fill price and the fill time.
\<close>

theorem markOrderExecuted_overwrites:
  "status (fill 2.9 7 None (newOrder ''a'' 3.2 100)) = Executed
   \<and> orders (settings (markOrderExecuted ''a'' 3.5 9 None
        (load \<lparr>maxBudget = 300, refreshInterval = 5,
           orders = [fill 2.9 7 None (newOrder ''a'' 3.2 100)]\<rparr> None))) =
     [(newOrder ''a'' 3.2 100)\<lparr>status := Executed, executedPrice := Some 3.5,
                               filledAt := Some 9\<rparr>]
   \<and> executedPrice (fill 2.9 7 None (newOrder ''a'' 3.2 100)) = Some 2.9
   \<and> markOrderExecuted ''a'' 3.5 9 None
        (load \<lparr>maxBudget = 300, refreshInterval = 5,
           orders = [fill 2.9 7 None (newOrder ''a'' 3.2 100)]\<rparr> None) \<noteq>
      load \<lparr>maxBudget = 300, refreshInterval = 5,
           orders = [fill 2.9 7 None (newOrder ''a'' 3.2 100)]\<rparr> None"
proof -
  let ?p = "load \<lparr>maxBudget = 300, refreshInterval = 5,
           orders = [fill 2.9 7 None (newOrder ''a'' 3.2 100)]\<rparr> None"
  have o: "orders (settings (markOrderExecuted ''a'' 3.5 9 None ?p)) =
     [(newOrder ''a'' 3.2 100)\<lparr>status := Executed, executedPrice := Some 3.5,
                               filledAt := Some 9\<rparr>]"
    by (simp add: load_eq Let_def newOrder_def markOrderExecuted_def fill_def saveSettings_def)
  have q: "orders (settings ?p) = [fill 2.9 7 None (newOrder ''a'' 3.2 100)]"
    by (simp add: load_eq Let_def)
  have "orders (settings (markOrderExecuted ''a'' 3.5 9 None ?p)) \<noteq> orders (settings ?p)"
    unfolding o q by (simp add: fill_def newOrder_def)
  then have "markOrderExecuted ''a'' 3.5 9 None ?p \<noteq> ?p" by auto
  with o show ?thesis by (simp add: fill_def newOrder_def)
qed

text \<open>
  C10 (as amended). \<^verbatim>\<open>removeOrder\<close> is a silent no-op, the page unchanged, when no
  order has the identifier. Otherwise it deletes the first order with that identifier,
  whatever its status, keeps every other order in place, and persists the settings.
\<close>

theorem removeOrder_effect:
  "((\<forall>ord \<in> set (orders (settings p)). order_id ord \<noteq> i) \<longrightarrow> removeOrder i p = p)
   \<and> (\<forall>pre x post. orders (settings p) = pre @ x # post \<and> order_id x = i
         \<and> (\<forall>y \<in> set pre. order_id y \<noteq> i) \<longrightarrow>
       orders (settings (removeOrder i p)) = pre @ post
       \<and> stored_settings (removeOrder i p) = settings (removeOrder i p)
       \<and> STATE (removeOrder i p) = STATE p)"
proof -
  have a: "(\<forall>ord \<in> set (orders (settings p)). order_id ord \<noteq> i) \<longrightarrow> removeOrder i p = p"
    by (simp add: removeOrder_def find_None_iff_id [symmetric])
  have b: "orders (settings (removeOrder i p)) = pre @ post
       \<and> stored_settings (removeOrder i p) = settings (removeOrder i p)
       \<and> STATE (removeOrder i p) = STATE p"
    if "orders (settings p) = pre @ x # post" "order_id x = i" "\<forall>y \<in> set pre. order_id y \<noteq> i"
    for pre x post
    using that find_first_id [of pre x post] spliceFirst_split [of pre x post]
    by (simp add: removeOrder_def saveSettings_def)
  from a b show ?thesis by blast
qed

theorem removeOrder_effect_witness:
  "orders (settings (load \<lparr>maxBudget = 300, refreshInterval = 5,
       orders = [newOrder ''a'' 3.2 100, newOrder ''b'' 3.1 100]\<rparr> None)) =
     [newOrder ''a'' 3.2 100] @ newOrder ''b'' 3.1 100 # []
   \<and> order_id (newOrder ''b'' 3.1 100) = ''b''
   \<and> list_all (\<lambda>y. order_id y \<noteq> ''b'') [newOrder ''a'' 3.2 100]
   \<and> orders (settings (removeOrder ''b''
        (load \<lparr>maxBudget = 300, refreshInterval = 5,
           orders = [newOrder ''a'' 3.2 100, newOrder ''b'' 3.1 100]\<rparr> None))) =
     [newOrder ''a'' 3.2 100]
   \<and> list_all (\<lambda>ord. order_id ord \<noteq> ''q'') [newOrder ''a'' 3.2 100, newOrder ''b'' 3.1 100]
   \<and> removeOrder ''q''
        (load \<lparr>maxBudget = 300, refreshInterval = 5,
           orders = [newOrder ''a'' 3.2 100, newOrder ''b'' 3.1 100]\<rparr> None) =
      load \<lparr>maxBudget = 300, refreshInterval = 5,
           orders = [newOrder ''a'' 3.2 100, newOrder ''b'' 3.1 100]\<rparr> None"
  using removeOrder_effect [of
      "load \<lparr>maxBudget = 300, refreshInterval = 5,
         orders = [newOrder ''a'' 3.2 100, newOrder ''b'' 3.1 100]\<rparr> None" "''b''"]
    removeOrder_effect [of
      "load \<lparr>maxBudget = 300, refreshInterval = 5,
         orders = [newOrder ''a'' 3.2 100, newOrder ''b'' 3.1 100]\<rparr> None" "''q''"]
  by (simp add: load_eq Let_def newOrder_def removeOrder_def saveSettings_def)

text \<open>
  C10 as stated fails: an executed order is deleted like any other.
\<close>

theorem removeOrder_deletes_executed:
  "status (fill 2.9 7 None (newOrder ''a'' 3.2 100)) = Executed
   \<and> orders (settings (load \<lparr>maxBudget = 300, refreshInterval = 5,
        orders = [fill 2.9 7 None (newOrder ''a'' 3.2 100), newOrder ''b'' 3.1 100]\<rparr> None)) =
      [fill 2.9 7 None (newOrder ''a'' 3.2 100), newOrder ''b'' 3.1 100]
   \<and> orders (settings (removeOrder ''a''
        (load \<lparr>maxBudget = 300, refreshInterval = 5,
           orders = [fill 2.9 7 None (newOrder ''a'' 3.2 100), newOrder ''b'' 3.1 100]\<rparr>
           None))) =
      [newOrder ''b'' 3.1 100]"
  by (simp add: load_eq Let_def newOrder_def removeOrder_def fill_def saveSettings_def)

section \<open>Batch execution\<close>

lemma order_id_fill [simp]: "order_id (fill price now v x) = order_id x"
  by (simp add: fill_def Let_def split: option.splits)

lemma markOrderExecuted_frame [simp]:
  "STATE (markOrderExecuted i price now v p) = STATE p"
  "executions (markOrderExecuted i price now v p) = executions p"
  "ticks (markOrderExecuted i price now v p) = ticks p"
  "stored_runningState (markOrderExecuted i price now v p) = stored_runningState p"
  "alarm (markOrderExecuted i price now v p) = alarm p"
  "timer (markOrderExecuted i price now v p) = timer p"
  "initStage (markOrderExecuted i price now v p) = initStage p"
  "maxBudget (settings (markOrderExecuted i price now v p)) = maxBudget (settings p)"
  "refreshInterval (settings (markOrderExecuted i price now v p)) = refreshInterval (settings p)"
  by (simp_all add: markOrderExecuted_def saveSettings_def split: option.splits)

lemma finallyBlock_frame [simp]:
  "settings (finallyBlock p) = settings p"
  "stored_settings (finallyBlock p) = stored_settings p"
  "executions (finallyBlock p) = executions p"
  "ticks (finallyBlock p) = ticks p"
  "timer (finallyBlock p) = timer p"
  "initStage (finallyBlock p) = initStage p"
  "buyProcessStarted (STATE (finallyBlock p)) = False"
  "currentStep (STATE (finallyBlock p)) = 0"
  "currentOrderIndex (STATE (finallyBlock p)) = None"
  "isRunning (STATE (finallyBlock p)) = isRunning (STATE p)"
  "totalSpent (STATE (finallyBlock p)) = totalSpent (STATE p)"
  "ordersExecuted (STATE (finallyBlock p)) = ordersExecuted (STATE p)"
  "alarm (finallyBlock p) = (isRunning (STATE p) \<or> alarm p)"
  "stored_runningState (finallyBlock p) =
     Some \<lparr>saved_isRunning = isRunning (STATE p), saved_buyProcessStarted = False,
           saved_currentStep = 0, saved_totalSpent = totalSpent (STATE p),
           saved_ordersExecuted = ordersExecuted (STATE p)\<rparr>"
  by (simp_all add: finallyBlock_def scheduleRefresh_def persistState_def)

lemma advanceStep_frame [simp]:
  "settings (advanceStep n p) = settings p"
  "stored_settings (advanceStep n p) = stored_settings p"
  "executions (advanceStep n p) = executions p"
  "ticks (advanceStep n p) = ticks p"
  "timer (advanceStep n p) = timer p"
  "alarm (advanceStep n p) = alarm p"
  "initStage (advanceStep n p) = initStage p"
  "buyProcessStarted (STATE (advanceStep n p)) = buyProcessStarted (STATE p)"
  "currentStep (STATE (advanceStep n p)) = n"
  "isRunning (STATE (advanceStep n p)) = isRunning (STATE p)"
  "totalSpent (STATE (advanceStep n p)) = totalSpent (STATE p)"
  "ordersExecuted (STATE (advanceStep n p)) = ordersExecuted (STATE p)"
  by (simp_all add: advanceStep_def persistState_def)

lemma countBatch_frame [simp]:
  "settings (countBatch n c p) = settings p"
  "stored_settings (countBatch n c p) = stored_settings p"
  "executions (countBatch n c p) = executions p"
  "ticks (countBatch n c p) = ticks p"
  "timer (countBatch n c p) = timer p"
  "alarm (countBatch n c p) = alarm p"
  "initStage (countBatch n c p) = initStage p"
  "buyProcessStarted (STATE (countBatch n c p)) = buyProcessStarted (STATE p)"
  "isRunning (STATE (countBatch n c p)) = isRunning (STATE p)"
  "totalSpent (STATE (countBatch n c p)) = jsAdd (totalSpent (STATE p)) c"
  "ordersExecuted (STATE (countBatch n c p)) = ordersExecuted (STATE p) + n"
  by (simp_all add: countBatch_def persistState_def)

lemma setPhase_frame [simp]:
  "length (executions (setPhase k ph p)) = length (executions p)"
  "STATE (setPhase k ph p) = STATE p"
  "settings (setPhase k ph p) = settings p"
  "stored_settings (setPhase k ph p) = stored_settings p"
  by (simp_all add: setPhase_def)

lemma subseq_set_mono: "subseq xs ys \<Longrightarrow> set xs \<subseteq> set ys"
  by (auto dest: list_emb_set)

lemma tick_batch_executable:
  assumes "ord \<in> set (batch_orders (validateBatchExecution (findExecutableOrders s price) mb sp))"
  shows "ord \<in> set (orders s) \<and> status ord = Pending \<and> price \<le> targetPrice ord"
proof -
  have "set (batch_orders (validateBatchExecution (findExecutableOrders s price) mb sp))
        \<subseteq> set (findExecutableOrders s price)"
    by (rule subseq_set_mono) (rule validateBatchExecution_subseq)
  with assms have "ord \<in> set (findExecutableOrders s price)" by blast
  then show ?thesis by (simp add: findExecutableOrders_set)
qed


text \<open>
  What the marking loop does with the next order of an execution: the first order of
  the collection that has its identifier is filled at the price the execution was
  started with; when there is none, nothing is marked and the loop goes on.
\<close>

lemma markNext_marks:
  assumes "k < length (executions q)" and "exec_phase (executions q ! k) = Marking (ord # rest)"
  shows "orders (settings (fire (MarkNext k now v) q)) =
           (case find (\<lambda>x. order_id x = order_id ord) (orders (settings q)) of
              None \<Rightarrow> orders (settings q)
            | Some found \<Rightarrow>
                updateFirst (order_id ord) (fill (executionPrice (executions q ! k)) now v)
                  (orders (settings q)))
     \<and> executions (fire (MarkNext k now v) q) =
         (executions q)[k := (executions q ! k)\<lparr>exec_phase := Marking rest\<rparr>]
     \<and> STATE (fire (MarkNext k now v) q) = STATE q"
  using assms
  by (simp add: markNext_def Let_def setPhase_def markOrderExecuted_def saveSettings_def
      split: option.splits)


text \<open>The page of the scenario: three pending orders, monitoring running.\<close>

lemma scenario_page:
  "load \<lparr>maxBudget = 300, refreshInterval = 5,
         orders = [newOrder ''a'' 3.2 100, newOrder ''b'' 3.1 100, newOrder ''c'' 3.0 100]\<rparr>
     (Some \<lparr>saved_isRunning = True, saved_buyProcessStarted = False, saved_currentStep = 0,
            saved_totalSpent = 0, saved_ordersExecuted = 0\<rparr>) =
   \<lparr>STATE = \<lparr>buyProcessStarted = False, currentStep = 0, totalSpent = 0, ordersExecuted = 0,
              isRunning = True, currentOrderIndex = None\<rparr>,
     settings = \<lparr>maxBudget = 300, refreshInterval = 5,
         orders = [newOrder ''a'' 3.2 100, newOrder ''b'' 3.1 100, newOrder ''c'' 3.0 100]\<rparr>,
     stored_settings = \<lparr>maxBudget = 300, refreshInterval = 5,
         orders = [newOrder ''a'' 3.2 100, newOrder ''b'' 3.1 100, newOrder ''c'' 3.0 100]\<rparr>,
     stored_runningState =
       Some \<lparr>saved_isRunning = True, saved_buyProcessStarted = False, saved_currentStep = 0,
             saved_totalSpent = 0, saved_ordersExecuted = 0\<rparr>,
     alarm = False, timer = True, ticks = [], executions = [], initStage = InitDone\<rparr>"
  by (simp add: load_eq Let_def persistState_def calculateTotalSpent_def
      getExecutedOrders_def sumAmounts_def newOrder_def)

text \<open>The definitions, and the arithmetic on whole amounts, a concrete run of events unfolds.\<close>

lemmas step_defs =
  startMonitoring_def stopMonitoring_def checkPriceAndBuy_def checkPriceAndBuy_rest_def
  enterBatch_def stepEnds_def markNext_def endExecution_def finallyBlock_def advanceStep_def
  countBatch_def setPhase_def dropAt_def persistState_def saveSettings_def scheduleRefresh_def
  cancelRefresh_def removeOrder_def markOrderExecuted_def fill_def getPendingOrders_def
  getExecutedOrders_def findExecutableOrders_def validateBatchExecution_def sumAmounts_def
  calculateTotalSpent_def newOrder_def reload_def init_resume_def onAlarm_def
  DEFAULT_SETTINGS_def inFlight_def jsAdd_Ints jsSub_Ints Let_def



text \<open>
  C4 fails on the code. In the scenario (targets 3.20, 3.10, 3.00, budget 300, price
  2.90) a batch that nothing interferes with ends with all three orders executed at
  2.90. When the order \<open>b\<close>, still pending and still shown with its remove button, is
  removed while the batch is in its first step, the three steps succeed as before, the
  combined amount of 300 has been bought, and \<open>b\<close> is never marked executed: the
  marking loop finds no order with its identifier and goes on.
\<close>

theorem removed_batch_order_never_marked:
  "orders (settings (run
       [TimerFires (Some 2.9), TickResumes 0, StepEnds 0 True, StepEnds 0 True,
        StepEnds 0 True, MarkNext 0 7 None, MarkNext 0 7 None, MarkNext 0 7 None,
        MarkNext 0 7 None]
       (load \<lparr>maxBudget = 300, refreshInterval = 5,
         orders = [newOrder ''a'' 3.2 100, newOrder ''b'' 3.1 100, newOrder ''c'' 3.0 100]\<rparr>
        (Some \<lparr>saved_isRunning = True, saved_buyProcessStarted = False, saved_currentStep = 0,
               saved_totalSpent = 0, saved_ordersExecuted = 0\<rparr>)))) =
     [(newOrder ''a'' 3.2 100)\<lparr>status := Executed, executedPrice := Some 2.9,
                                filledAt := Some 7\<rparr>,
      (newOrder ''b'' 3.1 100)\<lparr>status := Executed, executedPrice := Some 2.9,
                                filledAt := Some 7\<rparr>,
      (newOrder ''c'' 3.0 100)\<lparr>status := Executed, executedPrice := Some 2.9,
                                filledAt := Some 7\<rparr>]
   \<and> executions (run [TimerFires (Some 2.9), TickResumes 0, RemoveClick ''b'']
       (load \<lparr>maxBudget = 300, refreshInterval = 5,
         orders = [newOrder ''a'' 3.2 100, newOrder ''b'' 3.1 100, newOrder ''c'' 3.0 100]\<rparr>
        (Some \<lparr>saved_isRunning = True, saved_buyProcessStarted = False, saved_currentStep = 0,
               saved_totalSpent = 0, saved_ordersExecuted = 0\<rparr>))) =
     [\<lparr>exec_orders = [newOrder ''c'' 3.0 100, newOrder ''b'' 3.1 100, newOrder ''a'' 3.2 100],
       executionPrice = 2.9, combinedAmount = 300, exec_phase = Stage1\<rparr>]
   \<and> orders (settings (run
       [TimerFires (Some 2.9), TickResumes 0, RemoveClick ''b'', StepEnds 0 True,
        StepEnds 0 True, StepEnds 0 True, MarkNext 0 7 None, MarkNext 0 7 None,
        MarkNext 0 7 None, MarkNext 0 7 None]
       (load \<lparr>maxBudget = 300, refreshInterval = 5,
         orders = [newOrder ''a'' 3.2 100, newOrder ''b'' 3.1 100, newOrder ''c'' 3.0 100]\<rparr>
        (Some \<lparr>saved_isRunning = True, saved_buyProcessStarted = False, saved_currentStep = 0,
               saved_totalSpent = 0, saved_ordersExecuted = 0\<rparr>)))) =
     [(newOrder ''a'' 3.2 100)\<lparr>status := Executed, executedPrice := Some 2.9,
                                filledAt := Some 7\<rparr>,
      (newOrder ''c'' 3.0 100)\<lparr>status := Executed, executedPrice := Some 2.9,
                                filledAt := Some 7\<rparr>]
   \<and> inFlight (run
       [TimerFires (Some 2.9), TickResumes 0, RemoveClick ''b'', StepEnds 0 True,
        StepEnds 0 True, StepEnds 0 True, MarkNext 0 7 None, MarkNext 0 7 None,
        MarkNext 0 7 None, MarkNext 0 7 None]
       (load \<lparr>maxBudget = 300, refreshInterval = 5,
         orders = [newOrder ''a'' 3.2 100, newOrder ''b'' 3.1 100, newOrder ''c'' 3.0 100]\<rparr>
        (Some \<lparr>saved_isRunning = True, saved_buyProcessStarted = False, saved_currentStep = 0,
               saved_totalSpent = 0, saved_ordersExecuted = 0\<rparr>))) = 0
   \<and> ordersExecuted (STATE (run
       [TimerFires (Some 2.9), TickResumes 0, RemoveClick ''b'', StepEnds 0 True,
        StepEnds 0 True, StepEnds 0 True, MarkNext 0 7 None, MarkNext 0 7 None,
        MarkNext 0 7 None, MarkNext 0 7 None]
       (load \<lparr>maxBudget = 300, refreshInterval = 5,
         orders = [newOrder ''a'' 3.2 100, newOrder ''b'' 3.1 100, newOrder ''c'' 3.0 100]\<rparr>
        (Some \<lparr>saved_isRunning = True, saved_buyProcessStarted = False, saved_currentStep = 0,
               saved_totalSpent = 0, saved_ordersExecuted = 0\<rparr>)))) = 3"
  unfolding scenario_page by (simp add: step_defs)

section \<open>Restart\<close>

text \<open>
  C6 fails on the code, in two ways. Monitoring is stopped while a batch is in its
  first step and the page is reloaded before the batch ends: storage shows a buy
  process and no monitoring; \<^verbatim>\<open>init\<close> clears the flag and arms the delayed check, but
  the script is not running, the check returns at its first test, and nothing is
  scheduled any more: monitoring is not resumed. And when the page is reloaded inside
  the marking loop, after the first of the three orders was marked, that order stays
  executed, the other two are pending, and the next check buys those two again.
\<close>

theorem init_stopped_while_buying:
  "stored_runningState (run [TimerFires (Some 2.9), TickResumes 0, StopClick]
       (load \<lparr>maxBudget = 300, refreshInterval = 5,
         orders = [newOrder ''a'' 3.2 100, newOrder ''b'' 3.1 100, newOrder ''c'' 3.0 100]\<rparr>
        (Some \<lparr>saved_isRunning = True, saved_buyProcessStarted = False, saved_currentStep = 0,
               saved_totalSpent = 0, saved_ordersExecuted = 0\<rparr>))) =
     Some \<lparr>saved_isRunning = False, saved_buyProcessStarted = True, saved_currentStep = 1,
           saved_totalSpent = 0, saved_ordersExecuted = 0\<rparr>
   \<and> run [TimerFires (Some 2.9), TickResumes 0, StopClick, Reload, InitResumes, InitResumes,
          InitResumes, TimerFires (Some 2.9)]
       (load \<lparr>maxBudget = 300, refreshInterval = 5,
         orders = [newOrder ''a'' 3.2 100, newOrder ''b'' 3.1 100, newOrder ''c'' 3.0 100]\<rparr>
        (Some \<lparr>saved_isRunning = True, saved_buyProcessStarted = False, saved_currentStep = 0,
               saved_totalSpent = 0, saved_ordersExecuted = 0\<rparr>)) =
     \<lparr>STATE = \<lparr>buyProcessStarted = False, currentStep = 0, totalSpent = 0, ordersExecuted = 0,
                isRunning = False, currentOrderIndex = None\<rparr>,
      settings = \<lparr>maxBudget = 300, refreshInterval = 5,
         orders = [newOrder ''a'' 3.2 100, newOrder ''b'' 3.1 100, newOrder ''c'' 3.0 100]\<rparr>,
      stored_settings = \<lparr>maxBudget = 300, refreshInterval = 5,
         orders = [newOrder ''a'' 3.2 100, newOrder ''b'' 3.1 100, newOrder ''c'' 3.0 100]\<rparr>,
      stored_runningState =
        Some \<lparr>saved_isRunning = False, saved_buyProcessStarted = False, saved_currentStep = 0,
              saved_totalSpent = 0, saved_ordersExecuted = 0\<rparr>,
      alarm = False, timer = False, ticks = [], executions = [], initStage = InitDone\<rparr>
   \<and> stored_runningState (run
       [TimerFires (Some 2.9), TickResumes 0, StepEnds 0 True, StepEnds 0 True,
        StepEnds 0 True, MarkNext 0 7 None]
       (load \<lparr>maxBudget = 300, refreshInterval = 5,
         orders = [newOrder ''a'' 3.2 100, newOrder ''b'' 3.1 100, newOrder ''c'' 3.0 100]\<rparr>
        (Some \<lparr>saved_isRunning = True, saved_buyProcessStarted = False, saved_currentStep = 0,
               saved_totalSpent = 0, saved_ordersExecuted = 0\<rparr>))) =
     Some \<lparr>saved_isRunning = True, saved_buyProcessStarted = True, saved_currentStep = 3,
           saved_totalSpent = 0, saved_ordersExecuted = 0\<rparr>
   \<and> orders (settings (run
       [TimerFires (Some 2.9), TickResumes 0, StepEnds 0 True, StepEnds 0 True,
        StepEnds 0 True, MarkNext 0 7 None, Reload, InitResumes, InitResumes, InitResumes]
       (load \<lparr>maxBudget = 300, refreshInterval = 5,
         orders = [newOrder ''a'' 3.2 100, newOrder ''b'' 3.1 100, newOrder ''c'' 3.0 100]\<rparr>
        (Some \<lparr>saved_isRunning = True, saved_buyProcessStarted = False, saved_currentStep = 0,
               saved_totalSpent = 0, saved_ordersExecuted = 0\<rparr>)))) =
     [newOrder ''a'' 3.2 100, newOrder ''b'' 3.1 100,
      (newOrder ''c'' 3.0 100)\<lparr>status := Executed, executedPrice := Some 2.9,
                                filledAt := Some 7\<rparr>]
   \<and> executions (run
       [TimerFires (Some 2.9), TickResumes 0, StepEnds 0 True, StepEnds 0 True,
        StepEnds 0 True, MarkNext 0 7 None, Reload, InitResumes, InitResumes, InitResumes,
        TimerFires (Some 2.9), TickResumes 0]
       (load \<lparr>maxBudget = 300, refreshInterval = 5,
         orders = [newOrder ''a'' 3.2 100, newOrder ''b'' 3.1 100, newOrder ''c'' 3.0 100]\<rparr>
        (Some \<lparr>saved_isRunning = True, saved_buyProcessStarted = False, saved_currentStep = 0,
               saved_totalSpent = 0, saved_ordersExecuted = 0\<rparr>))) =
     [\<lparr>exec_orders = [newOrder ''b'' 3.1 100, newOrder ''a'' 3.2 100],
       executionPrice = 2.9, combinedAmount = 200, exec_phase = Stage1\<rparr>]"
  unfolding scenario_page by (simp add: step_defs)

section \<open>Executions in flight\<close>

text \<open>
  C7 fails on the code. The last piece of \<^verbatim>\<open>init\<close> clears \<^verbatim>\<open>buyProcessStarted\<close>
  whenever the persisted state showed a buy process, without looking at what happened
  while \<^verbatim>\<open>init\<close> was suspended. Monitoring is stopped during a batch and the page is
  reloaded, so that storage shows a buy process; while \<^verbatim>\<open>init\<close> waits for
  \<^verbatim>\<open>createToolbar\<close>, with the Start button wired and the message listener registered, a
  start action begins a price check, which starts an execution and sets the flag;
  \<^verbatim>\<open>init\<close> goes on, clears the flag and arms its delayed check; that check starts a
  second execution while the first is in its first step.
\<close>

theorem second_execution_after_init:
  "initStage (run [TimerFires (Some 2.9), TickResumes 0, StopClick, Reload, InitResumes,
        InitResumes]
       (load \<lparr>maxBudget = 300, refreshInterval = 5,
         orders = [newOrder ''a'' 3.2 100, newOrder ''b'' 3.1 100, newOrder ''c'' 3.0 100]\<rparr>
        (Some \<lparr>saved_isRunning = True, saved_buyProcessStarted = False, saved_currentStep = 0,
               saved_totalSpent = 0, saved_ordersExecuted = 0\<rparr>))) = AwaitToolbar False True
   \<and> executions (run [TimerFires (Some 2.9), TickResumes 0, StopClick, Reload, InitResumes,
        InitResumes, StartClick (Some 2.9), TickResumes 0]
       (load \<lparr>maxBudget = 300, refreshInterval = 5,
         orders = [newOrder ''a'' 3.2 100, newOrder ''b'' 3.1 100, newOrder ''c'' 3.0 100]\<rparr>
        (Some \<lparr>saved_isRunning = True, saved_buyProcessStarted = False, saved_currentStep = 0,
               saved_totalSpent = 0, saved_ordersExecuted = 0\<rparr>))) =
     [\<lparr>exec_orders = [newOrder ''c'' 3.0 100, newOrder ''b'' 3.1 100, newOrder ''a'' 3.2 100],
       executionPrice = 2.9, combinedAmount = 300, exec_phase = Stage1\<rparr>]
   \<and> buyProcessStarted (STATE (run [TimerFires (Some 2.9), TickResumes 0, StopClick, Reload,
        InitResumes, InitResumes, StartClick (Some 2.9), TickResumes 0]
       (load \<lparr>maxBudget = 300, refreshInterval = 5,
         orders = [newOrder ''a'' 3.2 100, newOrder ''b'' 3.1 100, newOrder ''c'' 3.0 100]\<rparr>
        (Some \<lparr>saved_isRunning = True, saved_buyProcessStarted = False, saved_currentStep = 0,
               saved_totalSpent = 0, saved_ordersExecuted = 0\<rparr>))))
   \<and> \<not> buyProcessStarted (STATE (run [TimerFires (Some 2.9), TickResumes 0, StopClick,
        Reload, InitResumes, InitResumes, StartClick (Some 2.9), TickResumes 0, InitResumes]
       (load \<lparr>maxBudget = 300, refreshInterval = 5,
         orders = [newOrder ''a'' 3.2 100, newOrder ''b'' 3.1 100, newOrder ''c'' 3.0 100]\<rparr>
        (Some \<lparr>saved_isRunning = True, saved_buyProcessStarted = False, saved_currentStep = 0,
               saved_totalSpent = 0, saved_ordersExecuted = 0\<rparr>))))
   \<and> executions (run [TimerFires (Some 2.9), TickResumes 0, StopClick, Reload, InitResumes,
        InitResumes, StartClick (Some 2.9), TickResumes 0, InitResumes,
        TimerFires (Some 2.9), TickResumes 0]
       (load \<lparr>maxBudget = 300, refreshInterval = 5,
         orders = [newOrder ''a'' 3.2 100, newOrder ''b'' 3.1 100, newOrder ''c'' 3.0 100]\<rparr>
        (Some \<lparr>saved_isRunning = True, saved_buyProcessStarted = False, saved_currentStep = 0,
               saved_totalSpent = 0, saved_ordersExecuted = 0\<rparr>))) =
     [\<lparr>exec_orders = [newOrder ''c'' 3.0 100, newOrder ''b'' 3.1 100, newOrder ''a'' 3.2 100],
       executionPrice = 2.9, combinedAmount = 300, exec_phase = Stage1\<rparr>,
      \<lparr>exec_orders = [newOrder ''c'' 3.0 100, newOrder ''b'' 3.1 100, newOrder ''a'' 3.2 100],
       executionPrice = 2.9, combinedAmount = 300, exec_phase = Stage1\<rparr>]
   \<and> inFlight (run [TimerFires (Some 2.9), TickResumes 0, StopClick, Reload, InitResumes,
        InitResumes, StartClick (Some 2.9), TickResumes 0, InitResumes,
        TimerFires (Some 2.9), TickResumes 0]
       (load \<lparr>maxBudget = 300, refreshInterval = 5,
         orders = [newOrder ''a'' 3.2 100, newOrder ''b'' 3.1 100, newOrder ''c'' 3.0 100]\<rparr>
        (Some \<lparr>saved_isRunning = True, saved_buyProcessStarted = False, saved_currentStep = 0,
               saved_totalSpent = 0, saved_ordersExecuted = 0\<rparr>))) = 2"
  unfolding scenario_page by (simp add: step_defs)


lemma reload_idle [simp]:
  "executions (reload old) = []" "\<not> buyProcessStarted (STATE (reload old))"
  by (simp_all add: reload_def)

lemma init_resume_idle:
  "executions p = [] \<Longrightarrow> \<not> buyProcessStarted (STATE p) \<Longrightarrow>
   executions (init_resume p) = [] \<and> \<not> buyProcessStarted (STATE (init_resume p))"
  by (simp add: init_resume_def Let_def persistState_def split: init_stage.splits)

lemma enterBatch_cases:
  "enterBatch os price p = p
   \<or> (\<not> buyProcessStarted (STATE p)
       \<and> buyProcessStarted (STATE (enterBatch os price p))
       \<and> executions (enterBatch os price p) =
           executions p @ [\<lparr>exec_orders = os, executionPrice = price,
                             combinedAmount = sumAmounts os, exec_phase = Stage1\<rparr>])"
  by (simp add: enterBatch_def persistState_def)

lemma enterBatch_guard: "buyProcessStarted (STATE p) \<Longrightarrow> enterBatch os price p = p"
  by (simp add: enterBatch_def)

lemma checkPriceAndBuy_guard: "buyProcessStarted (STATE p) \<Longrightarrow> checkPriceAndBuy price p = p"
  by (simp add: checkPriceAndBuy_def)

lemma checkPriceAndBuy_rest_cases:
  "(executions (checkPriceAndBuy_rest cp p) = executions p
      \<and> buyProcessStarted (STATE (checkPriceAndBuy_rest cp p)) = buyProcessStarted (STATE p))
   \<or> (\<not> buyProcessStarted (STATE p)
       \<and> buyProcessStarted (STATE (checkPriceAndBuy_rest cp p))
       \<and> length (executions (checkPriceAndBuy_rest cp p)) = Suc (length (executions p)))"
proof -
  have "checkPriceAndBuy_rest cp p = scheduleRefresh p
        \<or> checkPriceAndBuy_rest cp p = stopMonitoring p
        \<or> (\<exists>os. checkPriceAndBuy_rest cp p = enterBatch os cp p)"
    by (auto simp: checkPriceAndBuy_rest_def Let_def)
  then consider "checkPriceAndBuy_rest cp p = scheduleRefresh p"
    | "checkPriceAndBuy_rest cp p = stopMonitoring p"
    | os where "checkPriceAndBuy_rest cp p = enterBatch os cp p"
    by blast
  then show ?thesis
  proof cases
    case 1
    then show ?thesis by simp
  next
    case 2
    then show ?thesis by simp
  next
    case 3
    with enterBatch_cases [of os cp p] show ?thesis by auto
  qed
qed

lemma endExecution_idle:
  "k < length (executions p) \<Longrightarrow> length (executions p) = 1 \<Longrightarrow>
   executions (endExecution k p) = [] \<and> \<not> buyProcessStarted (STATE (endExecution k p))"
  by (cases "executions p") (simp_all add: endExecution_def dropAt_def)

lemma executions_countBatch_endExecution:
  "executions (endExecution k (countBatch n c p)) = executions (endExecution k p)"
  "buyProcessStarted (STATE (endExecution k (countBatch n c p))) =
   buyProcessStarted (STATE (endExecution k p))"
  by (simp_all add: endExecution_def countBatch_def persistState_def finallyBlock_def
      scheduleRefresh_def)

lemma stepEnds_inv:
  assumes "(executions p = [] \<and> \<not> buyProcessStarted (STATE p))
           \<or> (length (executions p) = 1 \<and> buyProcessStarted (STATE p))"
  shows "(executions (stepEnds k ok p) = [] \<and> \<not> buyProcessStarted (STATE (stepEnds k ok p)))
         \<or> (length (executions (stepEnds k ok p)) = 1
             \<and> buyProcessStarted (STATE (stepEnds k ok p)))"
proof (cases "k < length (executions p)")
  case False
  with assms show ?thesis by (simp add: stepEnds_def)
next
  case True
  with assms have one: "length (executions p) = 1" and fl: "buyProcessStarted (STATE p)"
    by auto
  show ?thesis
    using endExecution_idle [OF True one] one fl True
    by (cases "exec_phase (executions p ! k)") (simp_all add: stepEnds_def)
qed

lemma markNext_inv:
  assumes "(executions p = [] \<and> \<not> buyProcessStarted (STATE p))
           \<or> (length (executions p) = 1 \<and> buyProcessStarted (STATE p))"
  shows "(executions (markNext k now v p) = []
             \<and> \<not> buyProcessStarted (STATE (markNext k now v p)))
         \<or> (length (executions (markNext k now v p)) = 1
             \<and> buyProcessStarted (STATE (markNext k now v p)))"
proof (cases "k < length (executions p)")
  case False
  with assms show ?thesis by (simp add: markNext_def)
next
  case True
  with assms have one: "length (executions p) = 1" and fl: "buyProcessStarted (STATE p)"
    by auto
  show ?thesis
  proof (cases "exec_phase (executions p ! k)")
    case (Marking rest)
    show ?thesis
    proof (cases rest)
      case Nil
      with Marking True endExecution_idle [OF True one] show ?thesis
        by (simp add: markNext_def Let_def executions_countBatch_endExecution)
    next
      case (Cons y ys)
      with Marking True one fl show ?thesis
        by (simp add: markNext_def Let_def)
    qed
  qed (use True one fl in \<open>simp_all add: markNext_def Let_def\<close>)
qed

lemma addOrder_frame [simp]:
  "executions (fst (addOrder newId t a p)) = executions p"
  "STATE (fst (addOrder newId t a p)) = STATE p"
  by (simp_all add: addOrder_def saveSettings_def Let_def)

lemma addOrder_result:
  "addOrder newId t a p = (p1, ord) \<Longrightarrow> executions p1 = executions p \<and> STATE p1 = STATE p"
  by (auto simp: addOrder_def saveSettings_def Let_def)

lemma addOrderClick_frame:
  "executions (fire (AddOrderClick ti ai price newId price2) p) = executions p
   \<and> buyProcessStarted (STATE (fire (AddOrderClick ti ai price newId price2) p)) =
       buyProcessStarted (STATE p)"
  by (auto simp: addOrderClick_def split: option.splits prod.splits dest!: addOrder_result)

lemma removeOrder_frame [simp]:
  "executions (removeOrder i p) = executions p" "STATE (removeOrder i p) = STATE p"
  by (simp_all add: removeOrder_def saveSettings_def split: option.splits)

lemma saveClick_frame [simp]:
  "executions (saveClick b n p) = executions p" "STATE (saveClick b n p) = STATE p"
  by (simp_all add: saveClick_def saveSettings_def scheduleRefresh_def Let_def)

lemma onAlarm_inv:
  "(executions (onAlarm vaultTab vendor p) = executions p
      \<and> buyProcessStarted (STATE (onAlarm vaultTab vendor p)) = buyProcessStarted (STATE p))
   \<or> (executions (onAlarm vaultTab vendor p) = []
       \<and> \<not> buyProcessStarted (STATE (onAlarm vaultTab vendor p)))"
  by (simp add: onAlarm_def Let_def split: option.splits)

text \<open>
  The flag is set exactly while one execution is in flight, and this is kept by every
  event but one: the resumption of \<^verbatim>\<open>init\<close> keeps it only when no execution is in
  flight.
\<close>

lemma fire_inv:
  assumes "(executions p = [] \<and> \<not> buyProcessStarted (STATE p))
           \<or> (length (executions p) = 1 \<and> buyProcessStarted (STATE p))"
    and "e = InitResumes \<longrightarrow> executions p = []"
  shows "(executions (fire e p) = [] \<and> \<not> buyProcessStarted (STATE (fire e p)))
         \<or> (length (executions (fire e p)) = 1 \<and> buyProcessStarted (STATE (fire e p)))"
proof (cases e)
  case (TickResumes k)
  show ?thesis
  proof (cases "k < length (ticks p)")
    case True
    let ?q = "p\<lparr>ticks := dropAt k (ticks p)\<rparr>"
    have "executions ?q = executions p" "STATE ?q = STATE p" by simp_all
    with assms(1) checkPriceAndBuy_rest_cases [of "ticks p ! k" ?q] TickResumes True
    show ?thesis by auto
  next
    case False
    with assms(1) TickResumes show ?thesis by simp
  qed
next
  case (StepEnds k ok)
  with stepEnds_inv [OF assms(1)] show ?thesis by simp
next
  case (MarkNext k now v)
  with markNext_inv [OF assms(1)] show ?thesis by simp
next
  case (AddOrderClick ti ai price newId price2)
  with assms(1) addOrderClick_frame [of ti ai price newId price2 p] show ?thesis by simp
next
  case (AlarmFires vaultTab vendor)
  with assms(1) onAlarm_inv [of vaultTab vendor p] show ?thesis by auto
next
  case InitResumes
  with assms init_resume_idle [of p] show ?thesis by auto
qed (use assms(1) in simp_all)

section \<open>The running counter of the amount spent\<close>

text \<open>
  C3 fails on the code. The budget check reads the counter \<^verbatim>\<open>STATE.totalSpent\<close>, to
  which a finished batch adds the combined amount computed when the batch started. Two
  pending orders of 100 are selected at price 2.90; one of them is removed while the
  batch is in its first step; the three steps succeed. Only the other order is marked
  executed, so the amount over the executed orders is 100, and the counter is 200.
\<close>

theorem totalSpent_counter_drifts:
  "orders (settings (run
       [TimerFires (Some 2.9), TickResumes 0, RemoveClick ''b'', StepEnds 0 True,
        StepEnds 0 True, StepEnds 0 True, MarkNext 0 7 None, MarkNext 0 8 None,
        MarkNext 0 9 None]
       (load \<lparr>maxBudget = 300, refreshInterval = 5,
           orders = [newOrder ''b'' 3.1 100, newOrder ''c'' 3.0 100]\<rparr>
          (Some \<lparr>saved_isRunning = True, saved_buyProcessStarted = False,
                 saved_currentStep = 0, saved_totalSpent = 0, saved_ordersExecuted = 0\<rparr>)))) =
     [(newOrder ''c'' 3.0 100)\<lparr>status := Executed, executedPrice := Some 2.9,
                               filledAt := Some 7\<rparr>]
   \<and> calculateTotalSpent (settings (run
       [TimerFires (Some 2.9), TickResumes 0, RemoveClick ''b'', StepEnds 0 True,
        StepEnds 0 True, StepEnds 0 True, MarkNext 0 7 None, MarkNext 0 8 None,
        MarkNext 0 9 None]
       (load \<lparr>maxBudget = 300, refreshInterval = 5,
           orders = [newOrder ''b'' 3.1 100, newOrder ''c'' 3.0 100]\<rparr>
          (Some \<lparr>saved_isRunning = True, saved_buyProcessStarted = False,
                 saved_currentStep = 0, saved_totalSpent = 0, saved_ordersExecuted = 0\<rparr>)))) =
     100
   \<and> totalSpent (STATE (run
       [TimerFires (Some 2.9), TickResumes 0, RemoveClick ''b'', StepEnds 0 True,
        StepEnds 0 True, StepEnds 0 True, MarkNext 0 7 None, MarkNext 0 8 None,
        MarkNext 0 9 None]
       (load \<lparr>maxBudget = 300, refreshInterval = 5,
           orders = [newOrder ''b'' 3.1 100, newOrder ''c'' 3.0 100]\<rparr>
          (Some \<lparr>saved_isRunning = True, saved_buyProcessStarted = False,
                 saved_currentStep = 0, saved_totalSpent = 0, saved_ordersExecuted = 0\<rparr>)))) =
     200
   \<and> inFlight (run
       [TimerFires (Some 2.9), TickResumes 0, RemoveClick ''b'', StepEnds 0 True,
        StepEnds 0 True, StepEnds 0 True, MarkNext 0 7 None, MarkNext 0 8 None,
        MarkNext 0 9 None]
       (load \<lparr>maxBudget = 300, refreshInterval = 5,
           orders = [newOrder ''b'' 3.1 100, newOrder ''c'' 3.0 100]\<rparr>
          (Some \<lparr>saved_isRunning = True, saved_buyProcessStarted = False,
                 saved_currentStep = 0, saved_totalSpent = 0, saved_ordersExecuted = 0\<rparr>))) = 0"
  by (simp add: load_eq step_defs)

end
